theory Spec2Isabelle
  imports Main "HOL-Library.Word" "HOL-Library.Sublist"
begin

unbundle bit_operations_syntax

section \<open>The binary module decoder of package binary\<close>

text \<open>
  The Go package \<^verbatim>\<open>binary\<close> decodes a WebAssembly-style module from a byte slice.
  A \<^verbatim>\<open>wasmReader\<close> holds the not yet consumed bytes; every read method either
  advances it or panics with an error value, and \<^verbatim>\<open>Decode\<close> recovers the panic.
  Here a read method is a function from the remaining bytes to either the error it panics
  with (\<open>Inl\<close>) or its result and the bytes left (\<open>Inr\<close>).

  Conventions of the embedding:
  \<^item> \<^verbatim>\<open>byte\<close>, \<^verbatim>\<open>uint32\<close>, \<^verbatim>\<open>uint64\<close> are words of that width; Go's
    \<^verbatim>\<open>int\<close> is taken to be 64 bits wide, so \<^verbatim>\<open>int(n)\<close> of a \<^verbatim>\<open>uint32\<close> is its value and
    \<^verbatim>\<open>remaining() + int(n)\<close> does not wrap;
  \<^item> a slice is the list of its elements (the code looks at slices through \<^verbatim>\<open>len\<close>,
    \<^verbatim>\<open>range\<close> and \<^verbatim>\<open>append\<close> only, so nil and the empty slice are both \<open>[]\<close>); a
    Go string is the list of its bytes;
  \<^item> memory is not modelled: \<^verbatim>\<open>make\<close> is taken to succeed. In the program a vector
    decoder allocates all entries of the announced count before it reads the first one, and
    an allocation that exhausts memory is a fatal error that \<^verbatim>\<open>recover\<close> does not catch, so
    that \<^verbatim>\<open>Decode\<close> does not return. The theorems are about runs in which every
    allocation succeeds;
  \<^item> the pointer \<^verbatim>\<open>StartSec\<close> is an \<open>option\<close>.
\<close>

type_synonym byte = "8 word"
type_synonym u32 = "32 word"
type_synonym u64 = "64 word"

subsection \<open>errors.go and the panics of reader.go\<close>

text \<open>
  The four package-level error values, and one constructor for each
  \<^verbatim>\<open>errors.New\<close> / \<^verbatim>\<open>fmt.Errorf\<close> call of reader.go, carrying the number that the
  message formats with \<^verbatim>\<open>%d\<close>.
\<close>

datatype error =
    errUnexpectedEnd            \<comment> \<open>unexpected end of section or function\<close>
  | errIntTooLong               \<comment> \<open>integer representation too long\<close>
  | errIntTooLarge              \<comment> \<open>integer too large\<close>
  | errMalformedUTF8Encoding    \<comment> \<open>malformed UTF-8 encoding\<close>
  | UnexpectedEndOfMagicHeader  \<comment> \<open>unexpected end of magic header\<close>
  | MagicHeaderNotDetected      \<comment> \<open>magic header not detected\<close>
  | UnexpectedEndOfBinaryVersion \<comment> \<open>unexpected end of binary version\<close>
  | UnknownBinaryVersion u32    \<comment> \<open>unknown binary version: %d\<close>
  | InconsistentLengths         \<comment> \<open>function and code section have inconsistent lengths\<close>
  | JunkAfterLastSection        \<comment> \<open>junk after last section\<close>
  | MalformedSectionId byte     \<comment> \<open>malformed section id: %d\<close>
  | JunkAfterLastSectionId byte \<comment> \<open>junk after last section, id: %d\<close>
  | SectionSizeMismatch byte    \<comment> \<open>section size mismatch, id: %d\<close>
  | InvalidImportDescTag byte   \<comment> \<open>invalid import desc tag: %d\<close>
  | InvalidExportDescTag byte   \<comment> \<open>invalid export desc tag: %d\<close>
  | TooManyLocals u64           \<comment> \<open>too many locals: %d\<close>
  | MalformedValueType byte     \<comment> \<open>malformed value type: %d\<close>
  | InvalidFunctypeTag byte     \<comment> \<open>invalid functype tag: %d\<close>
  | InvalidElemtype byte        \<comment> \<open>invalid elemtype: %d\<close>
  | MalformedMutability byte    \<comment> \<open>malformed mutability: %d\<close>

text \<open>
  The four error kinds of the specification's taxonomy (its section 7), as a
  classification of the errors above.
\<close>

datatype kind = TruncatedInput | MalformedEncoding | IntegerEncodingError | StructuralViolation

fun kind_of :: "error \<Rightarrow> kind" where
  "kind_of errUnexpectedEnd = TruncatedInput"
| "kind_of UnexpectedEndOfMagicHeader = TruncatedInput"
| "kind_of UnexpectedEndOfBinaryVersion = TruncatedInput"
| "kind_of errIntTooLong = IntegerEncodingError"
| "kind_of errIntTooLarge = IntegerEncodingError"
| "kind_of errMalformedUTF8Encoding = MalformedEncoding"
| "kind_of (MalformedValueType _) = MalformedEncoding"
| "kind_of (InvalidFunctypeTag _) = MalformedEncoding"
| "kind_of (InvalidElemtype _) = MalformedEncoding"
| "kind_of (MalformedMutability _) = MalformedEncoding"
| "kind_of (InvalidImportDescTag _) = MalformedEncoding"
| "kind_of (InvalidExportDescTag _) = MalformedEncoding"
| "kind_of (MalformedSectionId _) = MalformedEncoding"
| "kind_of MagicHeaderNotDetected = StructuralViolation"
| "kind_of (UnknownBinaryVersion _) = StructuralViolation"
| "kind_of InconsistentLengths = StructuralViolation"
| "kind_of JunkAfterLastSection = StructuralViolation"
| "kind_of (JunkAfterLastSectionId _) = StructuralViolation"
| "kind_of (SectionSizeMismatch _) = StructuralViolation"
| "kind_of (TooManyLocals _) = StructuralViolation"

subsection \<open>module.go and the type declarations\<close>

definition SecCustomID :: byte where "SecCustomID = 0"
definition SecTypeID :: byte where "SecTypeID = 1"
definition SecImportID :: byte where "SecImportID = 2"
definition SecFuncID :: byte where "SecFuncID = 3"
definition SecTableID :: byte where "SecTableID = 4"
definition SecMemID :: byte where "SecMemID = 5"
definition SecGlobalID :: byte where "SecGlobalID = 6"
definition SecExportID :: byte where "SecExportID = 7"
definition SecStartID :: byte where "SecStartID = 8"
definition SecElemID :: byte where "SecElemID = 9"
definition SecCodeID :: byte where "SecCodeID = 10"
definition SecDataID :: byte where "SecDataID = 11"

lemmas SecID_defs = SecCustomID_def SecTypeID_def SecImportID_def SecFuncID_def
  SecTableID_def SecMemID_def SecGlobalID_def SecExportID_def SecStartID_def
  SecElemID_def SecCodeID_def SecDataID_def

definition ImportTagFunc :: byte where "ImportTagFunc = 0"
definition ImportTagTable :: byte where "ImportTagTable = 1"
definition ImportTagMem :: byte where "ImportTagMem = 2"
definition ImportTagGlobal :: byte where "ImportTagGlobal = 3"

definition ExportTagFunc :: byte where "ExportTagFunc = 0"
definition ExportTagTable :: byte where "ExportTagTable = 1"
definition ExportTagMem :: byte where "ExportTagMem = 2"
definition ExportTagGlobal :: byte where "ExportTagGlobal = 3"

lemmas Tag_defs = ImportTagFunc_def ImportTagTable_def ImportTagMem_def ImportTagGlobal_def
  ExportTagFunc_def ExportTagTable_def ExportTagMem_def ExportTagGlobal_def

definition MagicNumber :: u32 where "MagicNumber = 0x6D736100"
definition Version :: u32 where "Version = 0x00000001"

type_synonym ValType = byte

definition ValTypeI32 :: ValType where "ValTypeI32 = 0x7F"
definition ValTypeI64 :: ValType where "ValTypeI64 = 0x7E"
definition ValTypeF32 :: ValType where "ValTypeF32 = 0x7D"
definition ValTypeF64 :: ValType where "ValTypeF64 = 0x7C"
definition FtTag :: byte where "FtTag = 0x60"
definition FuncRef :: byte where "FuncRef = 0x70"
definition MutConst :: byte where "MutConst = 0"
definition MutVar :: byte where "MutVar = 1"

lemmas Type_defs = ValTypeI32_def ValTypeI64_def ValTypeF32_def ValTypeF64_def
  FtTag_def FuncRef_def MutConst_def MutVar_def

text \<open>
  Modelled from the spec: the type \<^verbatim>\<open>Expr\<close> is declared in a file of the package that
  is not among the sources at hand. reader.go returns \<^verbatim>\<open>nil\<close> for it; the specification
  calls an expression opaque and allows an implementation to retain the raw byte span
  instead, which is the second constructor. The code modelled here never builds it.
\<close>

datatype Expr = Expr_nil | Expr_span "byte list"

record FuncType =
  FuncType_Tag :: byte
  ParamTypes :: "ValType list"
  ResultTypes :: "ValType list"

record Limits =
  Limits_Tag :: byte
  Limits_Min :: u32
  Limits_Max :: u32

type_synonym MemType = Limits

record TableType =
  ElemType :: byte
  TableType_Limits :: Limits

record GlobalType =
  GlobalType_ValType :: ValType
  Mut :: byte

record ImportDesc =
  ImportDesc_Tag :: byte
  ImportDesc_FuncType :: u32
  ImportDesc_Table :: TableType
  ImportDesc_Mem :: MemType
  ImportDesc_Global :: GlobalType

record Import =
  Import_Module :: "byte list"
  Import_Name :: "byte list"
  Import_Desc :: ImportDesc

record Global =
  Global_Type :: GlobalType
  Global_Init :: Expr

record ExportDesc =
  ExportDesc_Tag :: byte
  ExportDesc_Idx :: u32

record Export =
  Export_Name :: "byte list"
  Export_Desc :: ExportDesc

record Elem =
  Elem_Table :: u32
  Elem_Offset :: Expr
  Elem_Init :: "u32 list"

record Locals =
  Locals_N :: u32
  Locals_Type :: ValType

record Code =
  Code_Locals :: "Locals list"
  Code_Expr :: Expr

record Data =
  Data_Mem :: u32
  Data_Offset :: Expr
  Data_Init :: "byte list"

record CustomSec =
  CustomSec_Name :: "byte list"
  CustomSec_Bytes :: "byte list"

record Module =
  Module_Magic :: u32
  Module_Version :: u32
  CustomSecs :: "CustomSec list"
  TypeSec :: "FuncType list"
  ImportSec :: "Import list"
  FuncSec :: "u32 list"
  TableSec :: "TableType list"
  MemSec :: "MemType list"
  GlobalSec :: "Global list"
  ExportSec :: "Export list"
  StartSec :: "u32 option"
  ElemSec :: "Elem list"
  CodeSec :: "Code list"
  DataSec :: "Data list"

text \<open>The zero values \<^verbatim>\<open>Limits{}\<close>, \<^verbatim>\<open>TableType{}\<close>, \<^verbatim>\<open>GlobalType{}\<close> and \<^verbatim>\<open>Module{}\<close>.\<close>

definition Limits_zero :: Limits where
  "Limits_zero = \<lparr>Limits_Tag = 0, Limits_Min = 0, Limits_Max = 0\<rparr>"

definition TableType_zero :: TableType where
  "TableType_zero = \<lparr>ElemType = 0, TableType_Limits = Limits_zero\<rparr>"

definition GlobalType_zero :: GlobalType where
  "GlobalType_zero = \<lparr>GlobalType_ValType = 0, Mut = 0\<rparr>"

definition Module_zero :: Module where
  "Module_zero = \<lparr>Module_Magic = 0, Module_Version = 0, CustomSecs = [], TypeSec = [],
     ImportSec = [], FuncSec = [], TableSec = [], MemSec = [], GlobalSec = [],
     ExportSec = [], StartSec = None, ElemSec = [], CodeSec = [], DataSec = []\<rparr>"

text \<open>
  \<^verbatim>\<open>GetLocalCount\<close>: the loop adds each \<^verbatim>\<open>uint64(locals.N)\<close> to a \<^verbatim>\<open>uint64\<close>, which
  wraps around.
\<close>

definition GetLocalCount :: "Code \<Rightarrow> u64" where
  "GetLocalCount code = fold (\<lambda>locals n. n + ucast (Locals_N locals)) (Code_Locals code) 0"

subsection \<open>The variable-length integer decoders\<close>

text \<open>
  Modelled from the spec: \<^verbatim>\<open>decodeVarUint\<close> and \<^verbatim>\<open>decodeVarInt\<close>, which reader.go calls
  as \<^verbatim>\<open>decodeVarUint(reader.data, 32)\<close>, are defined in a file of the package that is not
  among the sources at hand. The specification (section 4.2): bytes are read one at a time, each contributes its 7
  low-order bits at increasing bit offsets, and the high bit says that another byte
  follows. The byte with index \<open>sz div 7\<close> is the last one that an encoding of \<open>sz\<close> bits
  can have: a continuation bit there is "integer representation too long", and bits in
  it that do not fit the width (for a signed value: that are not copies of the sign bit)
  are "integer too large". Running out of bytes before a byte without continuation bit
  is "unexpected end". The result is the value and the number of bytes consumed; a
  signed value is sign-extended from bit 6 of its last byte.
\<close>

fun decodeVarUint_from :: "nat \<Rightarrow> nat \<Rightarrow> u64 \<Rightarrow> byte list \<Rightarrow> error + (u64 \<times> nat)" where
  "decodeVarUint_from sz i result [] = Inl errUnexpectedEnd"
| "decodeVarUint_from sz i result (b # bs) =
     (if i = sz div 7 \<and> b AND 0x80 \<noteq> 0 then Inl errIntTooLong
      else if i = sz div 7 \<and> drop_bit (sz - i * 7) b > 0 then Inl errIntTooLarge
      else let result' = result OR push_bit (i * 7) (ucast b AND 0x7F)
           in if b AND 0x80 = 0 then Inr (result', i + 1)
              else decodeVarUint_from sz (i + 1) result' bs)"

definition decodeVarUint :: "byte list \<Rightarrow> nat \<Rightarrow> error + (u64 \<times> nat)" where
  "decodeVarUint data sz = decodeVarUint_from sz 0 0 data"

text \<open>The signed result is an \<^verbatim>\<open>int64\<close>, kept as its 64 bits (\<open>sint\<close> reads it).\<close>

fun decodeVarInt_from :: "nat \<Rightarrow> nat \<Rightarrow> u64 \<Rightarrow> byte list \<Rightarrow> error + (u64 \<times> nat)" where
  "decodeVarInt_from sz i result [] = Inl errUnexpectedEnd"
| "decodeVarInt_from sz i result (b # bs) =
     (if i = sz div 7 \<and> b AND 0x80 \<noteq> 0 then Inl errIntTooLong
      else if i = sz div 7 \<and>
              (b AND 0x40 = 0 \<and> drop_bit (sz - i * 7 - 1) b \<noteq> 0 \<or>
               b AND 0x40 \<noteq> 0 \<and> signed_drop_bit (sz - i * 7 - 1) (b OR 0x80) \<noteq> - 1)
           then Inl errIntTooLarge
      else let result' = result OR push_bit (i * 7) (ucast b AND 0x7F)
           in if b AND 0x80 = 0
              then Inr (if i * 7 < sz \<and> b AND 0x40 \<noteq> 0
                        then result' OR push_bit ((i + 1) * 7) (- 1) else result', i + 1)
              else decodeVarInt_from sz (i + 1) result' bs)"

definition decodeVarInt :: "byte list \<Rightarrow> nat \<Rightarrow> error + (u64 \<times> nat)" where
  "decodeVarInt data sz = decodeVarInt_from sz 0 0 data"

subsection \<open>reader.go: the cursor and the primitive reads\<close>

type_synonym 'a reader = "byte list \<Rightarrow> error + ('a \<times> byte list)"

text \<open>
  Sequencing of reads on one \<^verbatim>\<open>wasmReader\<close>: \<open>bnd r f\<close> runs \<open>r\<close>, and if it did not
  panic runs \<open>f\<close> on its result and the bytes left; \<open>ret\<close> returns without reading,
  \<open>panic\<close> is Go's \<^verbatim>\<open>panic(err)\<close>.
\<close>

definition ret :: "'a \<Rightarrow> 'a reader" where
  "ret v data = Inr (v, data)"

definition panic :: "error \<Rightarrow> 'a reader" where
  "panic e data = Inl e"

definition bnd :: "'a reader \<Rightarrow> ('a \<Rightarrow> 'b reader) \<Rightarrow> 'b reader" where
  "bnd r f data = (case r data of Inl e \<Rightarrow> Inl e | Inr (v, rest) \<Rightarrow> f v rest)"

definition remaining :: "byte list \<Rightarrow> nat" where
  "remaining data = length data"

definition readByte :: "byte reader" where
  "readByte data = (if length data < 1 then Inl errUnexpectedEnd else Inr (data ! 0, drop 1 data))"

text \<open>\<^verbatim>\<open>binary.LittleEndian.Uint32\<close> and \<^verbatim>\<open>Uint64\<close> of encoding/binary.\<close>

definition LittleEndian_Uint32 :: "byte list \<Rightarrow> u32" where
  "LittleEndian_Uint32 b = ucast (b ! 0) OR push_bit 8 (ucast (b ! 1)) OR
     push_bit 16 (ucast (b ! 2)) OR push_bit 24 (ucast (b ! 3))"

definition LittleEndian_Uint64 :: "byte list \<Rightarrow> u64" where
  "LittleEndian_Uint64 b = ucast (b ! 0) OR push_bit 8 (ucast (b ! 1)) OR
     push_bit 16 (ucast (b ! 2)) OR push_bit 24 (ucast (b ! 3)) OR
     push_bit 32 (ucast (b ! 4)) OR push_bit 40 (ucast (b ! 5)) OR
     push_bit 48 (ucast (b ! 6)) OR push_bit 56 (ucast (b ! 7))"

definition readU32 :: "u32 reader" where
  "readU32 data = (if length data < 4 then Inl errUnexpectedEnd
                   else Inr (LittleEndian_Uint32 data, drop 4 data))"

definition readU64 :: "u64 reader" where
  "readU64 data = (if length data < 8 then Inl errUnexpectedEnd
                   else Inr (LittleEndian_Uint64 data, drop 8 data))"

definition readVarU32 :: "u32 reader" where
  "readVarU32 data = (case decodeVarUint data 32 of Inl e \<Rightarrow> Inl e
                      | Inr (n, w) \<Rightarrow> Inr (ucast n, drop w data))"

definition readVarU64 :: "u64 reader" where
  "readVarU64 data = (case decodeVarUint data 64 of Inl e \<Rightarrow> Inl e
                      | Inr (n, w) \<Rightarrow> Inr (n, drop w data))"

text \<open>The results of the signed reads are the bits of the \<^verbatim>\<open>int32\<close> and \<^verbatim>\<open>int64\<close>.\<close>

definition readVarS32 :: "u32 reader" where
  "readVarS32 data = (case decodeVarInt data 32 of Inl e \<Rightarrow> Inl e
                      | Inr (n, w) \<Rightarrow> Inr (ucast n, drop w data))"

definition readVarS64 :: "u64 reader" where
  "readVarS64 data = (case decodeVarInt data 64 of Inl e \<Rightarrow> Inl e
                      | Inr (n, w) \<Rightarrow> Inr (n, drop w data))"

definition readBytes :: "byte list reader" where
  "readBytes = bnd readVarU32 (\<lambda>n data.
     if length data < unat n then Inl errUnexpectedEnd
     else Inr (take (unat n) data, drop (unat n) data))"

text \<open>
  \<^verbatim>\<open>utf8.Valid\<close> of the Go library: the bytes are a sequence of well-formed UTF-8
  encodings (shortest form, no surrogates, at most U+10FFFF).
\<close>

definition utf8_cont :: "byte \<Rightarrow> bool" where
  "utf8_cont c \<longleftrightarrow> 0x80 \<le> c \<and> c \<le> 0xBF"

fun utf8_Valid :: "byte list \<Rightarrow> bool" where
  "utf8_Valid [] = True"
| "utf8_Valid (b # bs) =
     (if b < 0x80 then utf8_Valid bs
      else if 0xC2 \<le> b \<and> b \<le> 0xDF then
        (case bs of c1 # r \<Rightarrow> utf8_cont c1 \<and> utf8_Valid r | _ \<Rightarrow> False)
      else if 0xE0 \<le> b \<and> b \<le> 0xEF then
        (case bs of c1 # c2 # r \<Rightarrow>
           (if b = 0xE0 then 0xA0 \<le> c1 \<and> c1 \<le> 0xBF
            else if b = 0xED then 0x80 \<le> c1 \<and> c1 \<le> 0x9F
            else utf8_cont c1) \<and> utf8_cont c2 \<and> utf8_Valid r
         | _ \<Rightarrow> False)
      else if 0xF0 \<le> b \<and> b \<le> 0xF4 then
        (case bs of c1 # c2 # c3 # r \<Rightarrow>
           (if b = 0xF0 then 0x90 \<le> c1 \<and> c1 \<le> 0xBF
            else if b = 0xF4 then 0x80 \<le> c1 \<and> c1 \<le> 0x8F
            else utf8_cont c1) \<and> utf8_cont c2 \<and> utf8_cont c3 \<and> utf8_Valid r
         | _ \<Rightarrow> False)
      else False)"

definition readName :: "byte list reader" where
  "readName = bnd readBytes (\<lambda>data.
     if \<not> utf8_Valid data then panic errMalformedUTF8Encoding else ret data)"

text \<open>
  The loop shared by all vector decoders,
  \<^verbatim>\<open>vec := make([]T, n); for i := range vec { vec[i] = read() }\<close>:
  \<open>n\<close> reads in a row, collected in order. The allocation of the \<open>n\<close> entries, which
  comes first in the program, has no counterpart here (see the conventions above).
\<close>

primrec readVec :: "nat \<Rightarrow> 'a reader \<Rightarrow> 'a list reader" where
  "readVec 0 r = ret []"
| "readVec (Suc n) r = bnd r (\<lambda>x. bnd (readVec n r) (\<lambda>xs. ret (x # xs)))"

subsection \<open>reader.go: the structural decoders\<close>

definition readValType :: "ValType reader" where
  "readValType = bnd readByte (\<lambda>vt.
     if vt = ValTypeI32 \<or> vt = ValTypeI64 \<or> vt = ValTypeF32 \<or> vt = ValTypeF64 then ret vt
     else panic (MalformedValueType vt))"

definition readValTypes :: "ValType list reader" where
  "readValTypes = bnd readVarU32 (\<lambda>n. readVec (unat n) readValType)"

definition readFuncType :: "FuncType reader" where
  "readFuncType = bnd readByte (\<lambda>tag. bnd readValTypes (\<lambda>params. bnd readValTypes (\<lambda>results.
     if tag \<noteq> FtTag then panic (InvalidFunctypeTag tag)
     else ret \<lparr>FuncType_Tag = tag, ParamTypes = params, ResultTypes = results\<rparr>)))"

definition readLimits :: "Limits reader" where
  "readLimits = bnd readByte (\<lambda>tag. bnd readVarU32 (\<lambda>min.
     if tag = 1
     then bnd readVarU32 (\<lambda>max. ret \<lparr>Limits_Tag = tag, Limits_Min = min, Limits_Max = max\<rparr>)
     else ret \<lparr>Limits_Tag = tag, Limits_Min = min, Limits_Max = 0\<rparr>))"

definition readTableType :: "TableType reader" where
  "readTableType = bnd readByte (\<lambda>et. bnd readLimits (\<lambda>limits.
     if et \<noteq> FuncRef then panic (InvalidElemtype et)
     else ret \<lparr>ElemType = et, TableType_Limits = limits\<rparr>))"

definition readGlobalType :: "GlobalType reader" where
  "readGlobalType = bnd readValType (\<lambda>vt. bnd readByte (\<lambda>m.
     if m = MutConst \<or> m = MutVar then ret \<lparr>GlobalType_ValType = vt, Mut = m\<rparr>
     else panic (MalformedMutability m)))"

text \<open>\<^verbatim>\<open>readExpr\<close>: \<^verbatim>\<open>for reader.readByte() != 0x0B {}\<close>, then \<^verbatim>\<open>return nil\<close>.\<close>

fun readExpr :: "Expr reader" where
  "readExpr [] = Inl errUnexpectedEnd"
| "readExpr (b # bs) = (if b \<noteq> 0x0B then readExpr bs else Inr (Expr_nil, bs))"

definition readIndices :: "u32 list reader" where
  "readIndices = bnd readVarU32 (\<lambda>n. readVec (unat n) readVarU32)"

definition readTypeSec :: "FuncType list reader" where
  "readTypeSec = bnd readVarU32 (\<lambda>n. readVec (unat n) readFuncType)"

definition readImportDesc :: "ImportDesc reader" where
  "readImportDesc = bnd readByte (\<lambda>tag.
     let desc = \<lparr>ImportDesc_Tag = tag, ImportDesc_FuncType = 0, ImportDesc_Table = TableType_zero,
                 ImportDesc_Mem = Limits_zero, ImportDesc_Global = GlobalType_zero\<rparr>
     in if tag = ImportTagFunc then bnd readVarU32 (\<lambda>x. ret (desc\<lparr>ImportDesc_FuncType := x\<rparr>))
        else if tag = ImportTagTable then bnd readTableType (\<lambda>x. ret (desc\<lparr>ImportDesc_Table := x\<rparr>))
        else if tag = ImportTagMem then bnd readLimits (\<lambda>x. ret (desc\<lparr>ImportDesc_Mem := x\<rparr>))
        else if tag = ImportTagGlobal then bnd readGlobalType (\<lambda>x. ret (desc\<lparr>ImportDesc_Global := x\<rparr>))
        else panic (InvalidImportDescTag tag))"

definition readImport :: "Import reader" where
  "readImport = bnd readName (\<lambda>m. bnd readName (\<lambda>n. bnd readImportDesc (\<lambda>d.
     ret \<lparr>Import_Module = m, Import_Name = n, Import_Desc = d\<rparr>)))"

definition readImportSec :: "Import list reader" where
  "readImportSec = bnd readVarU32 (\<lambda>n. readVec (unat n) readImport)"

definition readTableSec :: "TableType list reader" where
  "readTableSec = bnd readVarU32 (\<lambda>n. readVec (unat n) readTableType)"

definition readMemSec :: "MemType list reader" where
  "readMemSec = bnd readVarU32 (\<lambda>n. readVec (unat n) readLimits)"

definition readGlobalSec :: "Global list reader" where
  "readGlobalSec = bnd readVarU32 (\<lambda>n. readVec (unat n)
     (bnd readGlobalType (\<lambda>t. bnd readExpr (\<lambda>e. ret \<lparr>Global_Type = t, Global_Init = e\<rparr>))))"

definition readExportDesc :: "ExportDesc reader" where
  "readExportDesc = bnd readByte (\<lambda>tag. bnd readVarU32 (\<lambda>idx.
     if tag = ExportTagFunc \<or> tag = ExportTagTable \<or> tag = ExportTagMem \<or> tag = ExportTagGlobal
     then ret \<lparr>ExportDesc_Tag = tag, ExportDesc_Idx = idx\<rparr>
     else panic (InvalidExportDescTag tag)))"

definition readExport :: "Export reader" where
  "readExport = bnd readName (\<lambda>n. bnd readExportDesc (\<lambda>d.
     ret \<lparr>Export_Name = n, Export_Desc = d\<rparr>))"

definition readExportSec :: "Export list reader" where
  "readExportSec = bnd readVarU32 (\<lambda>n. readVec (unat n) readExport)"

definition readStartSec :: "u32 option reader" where
  "readStartSec = bnd readVarU32 (\<lambda>idx. ret (Some idx))"

definition readElem :: "Elem reader" where
  "readElem = bnd readVarU32 (\<lambda>t. bnd readExpr (\<lambda>off. bnd readIndices (\<lambda>init.
     ret \<lparr>Elem_Table = t, Elem_Offset = off, Elem_Init = init\<rparr>)))"

definition readElemSec :: "Elem list reader" where
  "readElemSec = bnd readVarU32 (\<lambda>n. readVec (unat n) readElem)"

definition readLocals :: "Locals reader" where
  "readLocals = bnd readVarU32 (\<lambda>n. bnd readValType (\<lambda>t.
     ret \<lparr>Locals_N = n, Locals_Type = t\<rparr>))"

definition readLocalsVec :: "Locals list reader" where
  "readLocalsVec = bnd readVarU32 (\<lambda>n. readVec (unat n) readLocals)"

text \<open>
  \<^verbatim>\<open>readCode\<close> and \<^verbatim>\<open>readCustomSec\<close> cut their bytes out with \<^verbatim>\<open>readBytes\<close> and decode
  them with a reader of their own; what that reader leaves (\<open>body\<close>) is dropped by
  \<^verbatim>\<open>readCode\<close> and is the payload of the custom section (in the literal
  \<^verbatim>\<open>CustomSec{Name: secReader.readName(), Bytes: secReader.data}\<close> the call comes first).
  The \<^verbatim>\<open>Expr\<close> field of the \<^verbatim>\<open>Code\<close> literal is not set, so it is nil.
  \<^verbatim>\<open>math.MaxUint32\<close> is \<open>2 ^ 32 - 1\<close>.
\<close>

definition readCode :: "Code reader" where
  "readCode = bnd readBytes (\<lambda>codeData.
     case readLocalsVec codeData of Inl e \<Rightarrow> panic e
     | Inr (locals, body) \<Rightarrow>
         let code = \<lparr>Code_Locals = locals, Code_Expr = Expr_nil\<rparr>;
             localCount = GetLocalCount code
         in if localCount \<ge> 0xFFFFFFFF then panic (TooManyLocals localCount)
            else ret code)"

definition readCodeSec :: "Code list reader" where
  "readCodeSec = bnd readVarU32 (\<lambda>n. readVec (unat n) readCode)"

definition readData :: "Data reader" where
  "readData = bnd readVarU32 (\<lambda>m. bnd readExpr (\<lambda>off. bnd readBytes (\<lambda>init.
     ret \<lparr>Data_Mem = m, Data_Offset = off, Data_Init = init\<rparr>)))"

definition readDataSec :: "Data list reader" where
  "readDataSec = bnd readVarU32 (\<lambda>n. readVec (unat n) readData)"

definition readCustomSec :: "CustomSec reader" where
  "readCustomSec = bnd readBytes (\<lambda>secData.
     case readName secData of Inl e \<Rightarrow> panic e
     | Inr (name, body) \<Rightarrow> ret \<lparr>CustomSec_Name = name, CustomSec_Bytes = body\<rparr>)"

text \<open>
  \<^verbatim>\<open>readNonCustomSec\<close> stores the decoded section in the module; the Go switch has no
  default, so any other id leaves module and reader as they are.
\<close>

definition readNonCustomSec :: "byte \<Rightarrow> Module \<Rightarrow> Module reader" where
  "readNonCustomSec secID module =
     (if secID = SecTypeID then bnd readTypeSec (\<lambda>x. ret (module\<lparr>TypeSec := x\<rparr>))
      else if secID = SecImportID then bnd readImportSec (\<lambda>x. ret (module\<lparr>ImportSec := x\<rparr>))
      else if secID = SecFuncID then bnd readIndices (\<lambda>x. ret (module\<lparr>FuncSec := x\<rparr>))
      else if secID = SecTableID then bnd readTableSec (\<lambda>x. ret (module\<lparr>TableSec := x\<rparr>))
      else if secID = SecMemID then bnd readMemSec (\<lambda>x. ret (module\<lparr>MemSec := x\<rparr>))
      else if secID = SecGlobalID then bnd readGlobalSec (\<lambda>x. ret (module\<lparr>GlobalSec := x\<rparr>))
      else if secID = SecExportID then bnd readExportSec (\<lambda>x. ret (module\<lparr>ExportSec := x\<rparr>))
      else if secID = SecStartID then bnd readStartSec (\<lambda>x. ret (module\<lparr>StartSec := x\<rparr>))
      else if secID = SecElemID then bnd readElemSec (\<lambda>x. ret (module\<lparr>ElemSec := x\<rparr>))
      else if secID = SecCodeID then bnd readCodeSec (\<lambda>x. ret (module\<lparr>CodeSec := x\<rparr>))
      else if secID = SecDataID then bnd readDataSec (\<lambda>x. ret (module\<lparr>DataSec := x\<rparr>))
      else ret module)"

section \<open>Every read consumes a prefix of the input\<close>

text \<open>
  A read method is \<open>framed\<close> when a successful read has consumed a prefix \<open>c\<close> of the
  input, gives the same result whatever follows \<open>c\<close>, and panics with
  \<^verbatim>\<open>errUnexpectedEnd\<close> on every proper prefix of \<open>c\<close>. All decoders of reader.go are;
  the section loop below terminates because of it.
\<close>

definition framed :: "'a reader \<Rightarrow> bool" where
  "framed r \<longleftrightarrow> (\<forall>data v rest. r data = Inr (v, rest) \<longrightarrow>
     (\<exists>c. data = c @ rest \<and> (\<forall>ys. r (c @ ys) = Inr (v, ys)) \<and>
          (\<forall>p. strict_prefix p c \<longrightarrow> r p = Inl errUnexpectedEnd)))"

lemma framedI:
  assumes "\<And>data v rest. r data = Inr (v, rest) \<Longrightarrow>
     \<exists>c. data = c @ rest \<and> (\<forall>ys. r (c @ ys) = Inr (v, ys)) \<and>
          (\<forall>p. strict_prefix p c \<longrightarrow> r p = Inl errUnexpectedEnd)"
  shows "framed r"
  using assms unfolding framed_def by blast

lemma framedE:
  assumes "framed r" and "r data = Inr (v, rest)"
  obtains c where "data = c @ rest" and "\<And>ys. r (c @ ys) = Inr (v, ys)"
    and "\<And>p. strict_prefix p c \<Longrightarrow> r p = Inl errUnexpectedEnd"
  using assms unfolding framed_def by blast

lemma framed_ret: "framed (ret v)"
  by (rule framedI) (auto simp: ret_def)

lemma framed_panic: "framed (panic e)"
  by (rule framedI) (simp add: panic_def)

lemma strict_prefix_appendD:
  assumes "strict_prefix p (c1 @ c2)"
  shows "strict_prefix p c1 \<or> (\<exists>q. p = c1 @ q \<and> strict_prefix q c2)"
proof (cases "prefix c1 p")
  case True
  then obtain q where q: "p = c1 @ q" by (auto simp: prefix_def)
  with assms have "strict_prefix q c2" by (auto simp: strict_prefix_def)
  with q show ?thesis by blast
next
  case False
  from assms have "prefix p (c1 @ c2)" by (simp add: strict_prefix_def)
  then have "prefix p c1 \<or> prefix c1 p" by (metis prefix_append prefix_def)
  with False have "prefix p c1" by blast
  with False show ?thesis by (auto simp: strict_prefix_def)
qed

lemma framed_bnd:
  assumes r: "framed r" and f: "\<And>v. framed (f v)"
  shows "framed (bnd r f)"
proof (rule framedI)
  fix data w rest
  assume "bnd r f data = Inr (w, rest)"
  then obtain v d1 where rd: "r data = Inr (v, d1)" and fd: "f v d1 = Inr (w, rest)"
    by (auto simp: bnd_def split: sum.splits)
  obtain c1 where c1: "data = c1 @ d1" "\<And>ys. r (c1 @ ys) = Inr (v, ys)"
    "\<And>p. strict_prefix p c1 \<Longrightarrow> r p = Inl errUnexpectedEnd"
    by (rule framedE [OF r rd]) blast
  obtain c2 where c2: "d1 = c2 @ rest" "\<And>ys. f v (c2 @ ys) = Inr (w, ys)"
    "\<And>p. strict_prefix p c2 \<Longrightarrow> f v p = Inl errUnexpectedEnd"
    by (rule framedE [OF f fd]) blast
  have "data = (c1 @ c2) @ rest" using c1(1) c2(1) by simp
  moreover have "\<forall>ys. bnd r f ((c1 @ c2) @ ys) = Inr (w, ys)"
    by (simp add: bnd_def c1(2) c2(2))
  moreover have "\<forall>p. strict_prefix p (c1 @ c2) \<longrightarrow> bnd r f p = Inl errUnexpectedEnd"
  proof (intro allI impI)
    fix p assume "strict_prefix p (c1 @ c2)"
    then consider "strict_prefix p c1" | q where "p = c1 @ q" "strict_prefix q c2"
      using strict_prefix_appendD by blast
    then show "bnd r f p = Inl errUnexpectedEnd"
    proof cases
      case 1
      then show ?thesis by (simp add: bnd_def c1(3))
    next
      case 2
      then show ?thesis by (simp add: bnd_def c1(2) c2(3))
    qed
  qed
  ultimately show "\<exists>c. data = c @ rest \<and> (\<forall>ys. bnd r f (c @ ys) = Inr (w, ys)) \<and>
          (\<forall>p. strict_prefix p c \<longrightarrow> bnd r f p = Inl errUnexpectedEnd)"
    by blast
qed

lemma framed_pure:
  assumes "\<And>data v rest. g data = Inr (v, rest) \<Longrightarrow> rest = data \<and> (\<forall>ys. g ys = Inr (v, ys))"
  shows "framed g"
proof (rule framedI)
  fix data v rest
  assume g: "g data = Inr (v, rest)"
  from assms [OF g] have "data = [] @ rest \<and> (\<forall>ys. g ([] @ ys) = Inr (v, ys))" by simp
  then show "\<exists>c. data = c @ rest \<and> (\<forall>ys. g (c @ ys) = Inr (v, ys)) \<and>
          (\<forall>p. strict_prefix p c \<longrightarrow> g p = Inl errUnexpectedEnd)"
    by (intro exI [of _ "[]"]) simp
qed

lemma framed_readVec: "framed r \<Longrightarrow> framed (readVec n r)"
  by (induction n) (simp_all add: framed_ret framed_bnd)

lemma framed_readByte: "framed readByte"
proof (rule framedI)
  fix data v rest
  assume "readByte data = Inr (v, rest)"
  then have "data = [v] @ rest"
    by (cases data) (auto simp: readByte_def split: if_splits)
  moreover have "\<forall>ys. readByte ([v] @ ys) = Inr (v, ys)" by (simp add: readByte_def)
  moreover have "\<forall>p. strict_prefix p [v] \<longrightarrow> readByte p = Inl errUnexpectedEnd"
    by (auto simp: readByte_def strict_prefix_def prefix_Cons)
  ultimately show "\<exists>c. data = c @ rest \<and> (\<forall>ys. readByte (c @ ys) = Inr (v, ys)) \<and>
          (\<forall>p. strict_prefix p c \<longrightarrow> readByte p = Inl errUnexpectedEnd)"
    by blast
qed

lemma decodeVarUint_from_framed:
  "decodeVarUint_from sz i acc data = Inr (n, w) \<Longrightarrow>
     i < w \<and> w - i \<le> length data \<and>
     (\<forall>ys. decodeVarUint_from sz i acc (take (w - i) data @ ys) = Inr (n, w)) \<and>
     (\<forall>p. strict_prefix p (take (w - i) data) \<longrightarrow> decodeVarUint_from sz i acc p = Inl errUnexpectedEnd)"
proof (induction data arbitrary: i acc)
  case Nil
  then show ?case by simp
next
  case (Cons b bs)
  let ?acc = "acc OR push_bit (i * 7) (ucast b AND 0x7F)"
  from Cons.prems have ok: "\<not> (i = sz div 7 \<and> b AND 0x80 \<noteq> 0)"
    "\<not> (i = sz div 7 \<and> drop_bit (sz - i * 7) b > 0)"
    by (auto split: if_splits)
  show ?case
  proof (cases "b AND 0x80 = 0")
    case True
    with Cons.prems ok have w: "w = i + 1" "n = ?acc" by (auto simp: Let_def split: if_splits)
    have "\<forall>p. strict_prefix p [b] \<longrightarrow> p = []" by (auto simp: strict_prefix_def prefix_Cons)
    with w ok True show ?thesis by (auto simp: Let_def)
  next
    case False
    with Cons.prems ok have rec: "decodeVarUint_from sz (i + 1) ?acc bs = Inr (n, w)"
      by (auto simp: Let_def split: if_splits)
    from Cons.IH [OF rec] have ih: "i + 1 < w" "w - (i + 1) \<le> length bs"
      "\<And>ys. decodeVarUint_from sz (i + 1) ?acc (take (w - (i + 1)) bs @ ys) = Inr (n, w)"
      "\<And>p. strict_prefix p (take (w - (i + 1)) bs) \<Longrightarrow>
          decodeVarUint_from sz (i + 1) ?acc p = Inl errUnexpectedEnd"
      by auto
    have tk: "take (w - i) (b # bs) = b # take (w - (i + 1)) bs"
      using ih(1) by (simp add: take_Cons')
    have "\<forall>p. strict_prefix p (b # take (w - (i + 1)) bs) \<longrightarrow>
            decodeVarUint_from sz i acc p = Inl errUnexpectedEnd"
    proof (intro allI impI)
      fix p assume p: "strict_prefix p (b # take (w - (i + 1)) bs)"
      show "decodeVarUint_from sz i acc p = Inl errUnexpectedEnd"
      proof (cases p)
        case Nil
        then show ?thesis by simp
      next
        case (Cons x q)
        with p have "x = b" "strict_prefix q (take (w - (i + 1)) bs)"
          by (auto simp: strict_prefix_def)
        with Cons ok False ih(4) show ?thesis by (auto simp: Let_def)
      qed
    qed
    with ih ok False tk show ?thesis by (auto simp: Let_def)
  qed
qed

lemma framed_readVarU32: "framed readVarU32"
proof (rule framedI)
  fix data v rest
  assume "readVarU32 data = Inr (v, rest)"
  then obtain n w where d: "decodeVarUint_from 32 0 0 data = Inr (n, w)"
    and v: "v = ucast n" and rest: "rest = drop w data"
    by (auto simp: readVarU32_def decodeVarUint_def split: sum.splits)
  from decodeVarUint_from_framed [OF d]
  have f: "w \<le> length data"
    "\<And>ys. decodeVarUint_from 32 0 0 (take w data @ ys) = Inr (n, w)"
    "\<And>p. strict_prefix p (take w data) \<Longrightarrow> decodeVarUint_from 32 0 0 p = Inl errUnexpectedEnd"
    by auto
  have "data = take w data @ rest" by (simp add: rest)
  moreover have "\<forall>ys. readVarU32 (take w data @ ys) = Inr (v, ys)"
    using f(1) by (simp add: readVarU32_def decodeVarUint_def f(2) v)
  moreover have "\<forall>p. strict_prefix p (take w data) \<longrightarrow> readVarU32 p = Inl errUnexpectedEnd"
    by (simp add: readVarU32_def decodeVarUint_def f(3))
  ultimately show "\<exists>c. data = c @ rest \<and> (\<forall>ys. readVarU32 (c @ ys) = Inr (v, ys)) \<and>
          (\<forall>p. strict_prefix p c \<longrightarrow> readVarU32 p = Inl errUnexpectedEnd)"
    by blast
qed

lemma framed_take:
  "framed (\<lambda>data. if length data < n then Inl errUnexpectedEnd
                   else Inr (take n data, drop n data))"
proof (rule framedI)
  fix data :: "byte list" and v rest
  assume "(if length data < n then Inl errUnexpectedEnd
           else Inr (take n data, drop n data)) = Inr (v, rest)"
  then have n: "n \<le> length data" and v: "v = take n data" and rest: "rest = drop n data"
    by (auto split: if_splits)
  have len: "length v = n" using n v by simp
  have "data = v @ rest" by (simp add: v rest)
  moreover have "\<forall>ys. (if length (v @ ys) < n then Inl errUnexpectedEnd
           else Inr (take n (v @ ys), drop n (v @ ys))) = Inr (v, ys)"
    using len by simp
  moreover have "\<forall>p. strict_prefix p v \<longrightarrow> (if length p < n then Inl errUnexpectedEnd
           else Inr (take n p, drop n p)) = Inl errUnexpectedEnd"
    using len by (auto simp: strict_prefix_def prefix_def)
  ultimately show "\<exists>c. data = c @ rest \<and>
     (\<forall>ys. (if length (c @ ys) < n then Inl errUnexpectedEnd
            else Inr (take n (c @ ys), drop n (c @ ys))) = Inr (v, ys)) \<and>
     (\<forall>p. strict_prefix p c \<longrightarrow> (if length p < n then Inl errUnexpectedEnd
            else Inr (take n p, drop n p)) = Inl errUnexpectedEnd)"
    by blast
qed

lemma framed_readBytes: "framed readBytes"
  unfolding readBytes_def by (intro framed_bnd framed_readVarU32 framed_take)

lemma framed_readName: "framed readName"
  unfolding readName_def by (auto intro!: framed_bnd framed_readBytes framed_ret framed_panic)

lemma readExpr_framed:
  "readExpr data = Inr (v, rest) \<Longrightarrow>
     \<exists>c. data = c @ rest \<and> (\<forall>ys. readExpr (c @ ys) = Inr (v, ys)) \<and>
         (\<forall>p. strict_prefix p c \<longrightarrow> readExpr p = Inl errUnexpectedEnd)"
proof (induction data)
  case Nil
  then show ?case by simp
next
  case (Cons b bs)
  show ?case
  proof (cases "b = 0x0B")
    case True
    with Cons.prems have "v = Expr_nil" "rest = bs" by auto
    moreover have "\<forall>p. strict_prefix p [b] \<longrightarrow> p = []"
      by (auto simp: strict_prefix_def prefix_Cons)
    ultimately show ?thesis using True by (intro exI [of _ "[b]"]) auto
  next
    case False
    with Cons.prems have "readExpr bs = Inr (v, rest)" by simp
    from Cons.IH [OF this] obtain c where c: "bs = c @ rest"
      "\<And>ys. readExpr (c @ ys) = Inr (v, ys)"
      "\<And>p. strict_prefix p c \<Longrightarrow> readExpr p = Inl errUnexpectedEnd"
      by blast
    have "\<forall>p. strict_prefix p (b # c) \<longrightarrow> readExpr p = Inl errUnexpectedEnd"
    proof (intro allI impI)
      fix p assume p: "strict_prefix p (b # c)"
      show "readExpr p = Inl errUnexpectedEnd"
      proof (cases p)
        case Nil
        then show ?thesis by simp
      next
        case (Cons x q)
        with p have "x = b" "strict_prefix q c" by (auto simp: strict_prefix_def)
        with Cons False c(3) show ?thesis by simp
      qed
    qed
    with c False show ?thesis by (intro exI [of _ "b # c"]) auto
  qed
qed

lemma framed_readExpr: "framed readExpr"
  by (rule framedI) (rule readExpr_framed)

lemmas framed_basic = framed_bnd framed_ret framed_panic framed_readVec framed_readByte
  framed_readVarU32 framed_readBytes framed_readName framed_readExpr

lemma framed_readValType: "framed readValType"
  unfolding readValType_def by (auto intro!: framed_basic)

lemma framed_readValTypes: "framed readValTypes"
  unfolding readValTypes_def by (intro framed_basic framed_readValType)

lemma framed_readFuncType: "framed readFuncType"
  unfolding readFuncType_def by (auto intro!: framed_basic framed_readValTypes)

lemma framed_readLimits: "framed readLimits"
  unfolding readLimits_def by (auto intro!: framed_basic)

lemma framed_readTableType: "framed readTableType"
  unfolding readTableType_def by (auto intro!: framed_basic framed_readLimits)

lemma framed_readGlobalType: "framed readGlobalType"
  unfolding readGlobalType_def by (auto intro!: framed_basic framed_readValType)

lemma framed_readIndices: "framed readIndices"
  unfolding readIndices_def by (intro framed_basic)

lemma framed_readTypeSec: "framed readTypeSec"
  unfolding readTypeSec_def by (intro framed_basic framed_readFuncType)

lemma framed_readImportDesc: "framed readImportDesc"
  unfolding readImportDesc_def Let_def
  by (auto intro!: framed_basic framed_readTableType framed_readLimits framed_readGlobalType)

lemma framed_readImport: "framed readImport"
  unfolding readImport_def by (intro framed_basic framed_readImportDesc)

lemma framed_readImportSec: "framed readImportSec"
  unfolding readImportSec_def by (intro framed_basic framed_readImport)

lemma framed_readTableSec: "framed readTableSec"
  unfolding readTableSec_def by (intro framed_basic framed_readTableType)

lemma framed_readMemSec: "framed readMemSec"
  unfolding readMemSec_def by (intro framed_basic framed_readLimits)

lemma framed_readGlobalSec: "framed readGlobalSec"
  unfolding readGlobalSec_def by (intro framed_basic framed_readGlobalType)

lemma framed_readExportDesc: "framed readExportDesc"
  unfolding readExportDesc_def by (auto intro!: framed_basic)

lemma framed_readExport: "framed readExport"
  unfolding readExport_def by (intro framed_basic framed_readExportDesc)

lemma framed_readExportSec: "framed readExportSec"
  unfolding readExportSec_def by (intro framed_basic framed_readExport)

lemma framed_readStartSec: "framed readStartSec"
  unfolding readStartSec_def by (intro framed_basic)

lemma framed_readElem: "framed readElem"
  unfolding readElem_def by (intro framed_basic framed_readIndices)

lemma framed_readElemSec: "framed readElemSec"
  unfolding readElemSec_def by (intro framed_basic framed_readElem)



lemma framed_readCode: "framed readCode"
  unfolding readCode_def Let_def
  by (auto intro!: framed_basic split: sum.splits)

lemma framed_readCodeSec: "framed readCodeSec"
  unfolding readCodeSec_def by (intro framed_basic framed_readCode)

lemma framed_readData: "framed readData"
  unfolding readData_def by (intro framed_basic)

lemma framed_readDataSec: "framed readDataSec"
  unfolding readDataSec_def by (intro framed_basic framed_readData)

lemma framed_readCustomSec: "framed readCustomSec"
  unfolding readCustomSec_def by (auto intro!: framed_basic split: sum.splits)

lemma framed_readNonCustomSec: "framed (readNonCustomSec secID module)"
  unfolding readNonCustomSec_def
  by (simp add: framed_bnd framed_ret framed_readIndices framed_readTypeSec
      framed_readImportSec framed_readTableSec framed_readMemSec framed_readGlobalSec
      framed_readExportSec framed_readStartSec framed_readElemSec framed_readCodeSec
      framed_readDataSec)

lemma framed_length:
  assumes "framed r" and "r data = Inr (v, rest)"
  shows "length rest \<le> length data"
  using assms by (auto elim!: framedE)

lemma custom_section_shorter:
  assumes "readByte data = Inr (secID, d1)" and "readCustomSec d1 = Inr (sec, d2)"
  shows "length d2 < length data"
proof -
  have "length d1 < length data"
    using assms(1) by (auto simp: readByte_def split: if_splits)
  with framed_length [OF framed_readCustomSec assms(2)] show ?thesis by simp
qed

lemma standard_section_shorter:
  assumes "readByte data = Inr (secID, d1)" and "readVarU32 d1 = Inr (n, d2)"
    and "readNonCustomSec secID module d2 = Inr (module', d3)"
  shows "length d3 < length data"
proof -
  have "length d1 < length data"
    using assms(1) by (auto simp: readByte_def split: if_splits)
  with framed_length [OF framed_readVarU32 assms(2)]
    framed_length [OF framed_readNonCustomSec assms(3)]
  show ?thesis by simp
qed

section \<open>reader.go: sections, module, Decode\<close>

text \<open>
  \<^verbatim>\<open>readSections\<close> and \<^verbatim>\<open>readModule\<close> write to the module through a pointer, and
  \<^verbatim>\<open>Decode\<close> returns that module (its named result) together with the recovered error.
  So these three return the module as it stands when they stop, beside the error or the
  bytes left. A decoder that panics inside \<^verbatim>\<open>readNonCustomSec\<close> or
  \<^verbatim>\<open>readCustomSec\<close> has not assigned to the module yet.
\<close>

function readSections :: "byte \<Rightarrow> Module \<Rightarrow> byte list \<Rightarrow> Module \<times> (error + byte list)" where
  "readSections prevSecID module data =
     (if \<not> remaining data > 0 then (module, Inr data)
      else case readByte data of Inl e \<Rightarrow> (module, Inl e)
        | Inr (secID, d1) \<Rightarrow>
          if secID = SecCustomID then
            (case readCustomSec d1 of Inl e \<Rightarrow> (module, Inl e)
             | Inr (sec, d2) \<Rightarrow>
                 readSections prevSecID (module\<lparr>CustomSecs := CustomSecs module @ [sec]\<rparr>) d2)
          else if secID > SecDataID then (module, Inl (MalformedSectionId secID))
          else if secID \<le> prevSecID then (module, Inl (JunkAfterLastSectionId secID))
          else
            (case readVarU32 d1 of Inl e \<Rightarrow> (module, Inl e)
             | Inr (n, d2) \<Rightarrow>
                (case readNonCustomSec secID module d2 of Inl e \<Rightarrow> (module, Inl e)
                 | Inr (module', d3) \<Rightarrow>
                     if remaining d3 + unat n \<noteq> remaining d2
                     then (module', Inl (SectionSizeMismatch secID))
                     else readSections secID module' d3)))"
  by pat_completeness auto
termination
  by (relation "measure (\<lambda>(prevSecID, module, data). length data)")
     (auto intro: custom_section_shorter standard_section_shorter)

declare readSections.simps [simp del]

definition readModule :: "Module \<Rightarrow> byte list \<Rightarrow> Module \<times> (error + byte list)" where
  "readModule module data =
     (if remaining data < 4 then (module, Inl UnexpectedEndOfMagicHeader)
      else
       (case readU32 data of Inl e \<Rightarrow> (module, Inl e)
        | Inr (magic, d1) \<Rightarrow>
           (let module1 = module\<lparr>Module_Magic := magic\<rparr>
            in if magic \<noteq> MagicNumber then (module1, Inl MagicHeaderNotDetected)
               else if remaining d1 < 4 then (module1, Inl UnexpectedEndOfBinaryVersion)
               else
                (case readU32 d1 of Inl e \<Rightarrow> (module1, Inl e)
                 | Inr (version, d2) \<Rightarrow>
                    (let module2 = module1\<lparr>Module_Version := version\<rparr>
                     in if version \<noteq> Version
                        then (module2, Inl (UnknownBinaryVersion version))
                        else
                         (case readSections 0 module2 d2 of
                            (module3, Inl e) \<Rightarrow> (module3, Inl e)
                          | (module3, Inr d3) \<Rightarrow>
                              if length (FuncSec module3) \<noteq> length (CodeSec module3)
                              then (module3, Inl InconsistentLengths)
                              else if remaining d3 > 0
                              then (module3, Inl JunkAfterLastSection)
                              else (module3, Inr d3)))))))"

definition Decode :: "byte list \<Rightarrow> Module \<times> error option" where
  "Decode data = (case readModule Module_zero data of
                    (module, Inl e) \<Rightarrow> (module, Some e)
                  | (module, Inr _) \<Rightarrow> (module, None))"

text \<open>
  \<^verbatim>\<open>Decode\<close> recovers the panic; every panic of the package carries an \<^verbatim>\<open>error\<close>,
  so the \<^verbatim>\<open>unknown error\<close> branch of the recover is never taken.
\<close>

text \<open>
  The values that \<^verbatim>\<open>prevSecID = secID\<close> assigns during a run of \<^verbatim>\<open>readSections\<close>, in
  order: the ids of the standard sections that pass the two id checks. The function
  follows the loop step by step and keeps only these ids.
\<close>

function prevSecID_history :: "byte \<Rightarrow> Module \<Rightarrow> byte list \<Rightarrow> byte list" where
  "prevSecID_history prevSecID module data =
     (if \<not> remaining data > 0 then []
      else case readByte data of Inl e \<Rightarrow> []
        | Inr (secID, d1) \<Rightarrow>
          if secID = SecCustomID then
            (case readCustomSec d1 of Inl e \<Rightarrow> []
             | Inr (sec, d2) \<Rightarrow>
                 prevSecID_history prevSecID (module\<lparr>CustomSecs := CustomSecs module @ [sec]\<rparr>) d2)
          else if secID > SecDataID then []
          else if secID \<le> prevSecID then []
          else secID #
            (case readVarU32 d1 of Inl e \<Rightarrow> []
             | Inr (n, d2) \<Rightarrow>
                (case readNonCustomSec secID module d2 of Inl e \<Rightarrow> []
                 | Inr (module', d3) \<Rightarrow>
                     if remaining d3 + unat n \<noteq> remaining d2 then []
                     else prevSecID_history secID module' d3)))"
  by pat_completeness auto
termination
  by (relation "measure (\<lambda>(prevSecID, module, data). length data)")
     (auto intro: custom_section_shorter standard_section_shorter)

declare prevSecID_history.simps [simp del]

section \<open>Properties of the section loop and of Decode\<close>

lemma readSections_Nil: "readSections prev m [] = (m, Inr [])"
  by (simp add: readSections.simps remaining_def)

lemma readSections_Cons:
  "readSections prev m (secID # d1) =
     (if secID = SecCustomID then
        (case readCustomSec d1 of Inl e \<Rightarrow> (m, Inl e)
         | Inr (sec, d2) \<Rightarrow> readSections prev (m\<lparr>CustomSecs := CustomSecs m @ [sec]\<rparr>) d2)
      else if secID > SecDataID then (m, Inl (MalformedSectionId secID))
      else if secID \<le> prev then (m, Inl (JunkAfterLastSectionId secID))
      else
        (case readVarU32 d1 of Inl e \<Rightarrow> (m, Inl e)
         | Inr (n, d2) \<Rightarrow>
            (case readNonCustomSec secID m d2 of Inl e \<Rightarrow> (m, Inl e)
             | Inr (m', d3) \<Rightarrow>
                 if length d3 + unat n \<noteq> length d2
                 then (m', Inl (SectionSizeMismatch secID))
                 else readSections secID m' d3)))"
  by (subst readSections.simps, unfold remaining_def) (simp add: readByte_def)

lemma readSections_rest:
  "readSections prev m data = (m', Inr rest) \<Longrightarrow> rest = []"
proof (induction prev m data rule: readSections.induct)
  case (1 prev m data)
  show ?case
  proof (cases data)
    case Nil
    with "1.prems" show ?thesis by (simp add: readSections_Nil)
  next
    case (Cons secID d1)
    have rb: "readByte data = Inr (secID, d1)" "\<not> \<not> remaining data > 0"
      by (simp_all add: Cons readByte_def remaining_def)
    show ?thesis
    proof (cases "secID = SecCustomID")
      case True
      with "1.prems" Cons obtain sec d2 where
        c: "readCustomSec d1 = Inr (sec, d2)"
        and r: "readSections prev (m\<lparr>CustomSecs := CustomSecs m @ [sec]\<rparr>) d2 = (m', Inr rest)"
        by (auto simp: readSections_Cons split: sum.splits)
      from "1.IH"(1) [OF rb(2) rb(1) refl True c refl r] show ?thesis .
    next
      case False
      with "1.prems" Cons obtain n d2 m1 d3 where
        g: "\<not> secID > SecDataID" "\<not> secID \<le> prev"
        and v: "readVarU32 d1 = Inr (n, d2)"
        and s: "readNonCustomSec secID m d2 = Inr (m1, d3)"
        and sz: "\<not> remaining d3 + unat n \<noteq> remaining d2"
        and r: "readSections secID m1 d3 = (m', Inr rest)"
        by (auto simp: readSections_Cons remaining_def split: sum.splits if_splits)
      from "1.IH"(2) [OF rb(2) rb(1) refl False g v refl s refl sz r] show ?thesis .
    qed
  qed
qed

lemma strict_prefix_Cons_cases:
  assumes "strict_prefix p (x # xs)"
  obtains "p = []" | q where "p = x # q" "strict_prefix q xs"
  using assms by (cases p) (auto simp: strict_prefix_def)

lemma readSections_truncated:
  "readSections prev m data = (m', Inr rest) \<Longrightarrow> strict_prefix p data \<Longrightarrow>
     (\<exists>m''. readSections prev m p = (m'', Inl errUnexpectedEnd)) \<or>
     (\<exists>m''. readSections prev m p = (m'', Inr []))"
proof (induction data arbitrary: prev m p rule: length_induct)
  case (1 data)
  from "1.prems"(2) obtain secID d1 where data: "data = secID # d1"
    by (cases data) auto
  from "1.prems"(2) [unfolded data] show ?case
  proof (cases rule: strict_prefix_Cons_cases)
    case 1
    then show ?thesis by (simp add: readSections_Nil)
  next
    case (2 q)
    show ?thesis
    proof (cases "secID = SecCustomID")
      case True
      with "1.prems"(1) data obtain sec d2 where
        c: "readCustomSec d1 = Inr (sec, d2)"
        and r: "readSections prev (m\<lparr>CustomSecs := CustomSecs m @ [sec]\<rparr>) d2 = (m', Inr rest)"
        by (auto simp: readSections_Cons split: sum.splits)
      obtain c1 where c1: "d1 = c1 @ d2" "\<And>ys. readCustomSec (c1 @ ys) = Inr (sec, ys)"
        "\<And>p. strict_prefix p c1 \<Longrightarrow> readCustomSec p = Inl errUnexpectedEnd"
        by (rule framedE [OF framed_readCustomSec c]) blast
      from 2(2) c1(1) consider "strict_prefix q c1" | q' where "q = c1 @ q'" "strict_prefix q' d2"
        using strict_prefix_appendD by blast
      then show ?thesis
      proof cases
        case 1
        then show ?thesis using True 2(1) by (simp add: readSections_Cons c1(3))
      next
        case 2
        have "length d2 < length data" by (simp add: data c1(1))
        from "1.IH" [rule_format, OF this r 2(2)] show ?thesis
          using True \<open>p = secID # q\<close> 2(1) by (simp add: readSections_Cons c1(2))
      qed
    next
      case False
      with "1.prems"(1) data obtain n d2 m1 d3 where
        g: "\<not> secID > SecDataID" "\<not> secID \<le> prev"
        and v: "readVarU32 d1 = Inr (n, d2)"
        and s: "readNonCustomSec secID m d2 = Inr (m1, d3)"
        and sz: "length d3 + unat n = length d2"
        and r: "readSections secID m1 d3 = (m', Inr rest)"
        by (auto simp: readSections_Cons split: sum.splits if_splits)
      obtain c1 where c1: "d1 = c1 @ d2" "\<And>ys. readVarU32 (c1 @ ys) = Inr (n, ys)"
        "\<And>p. strict_prefix p c1 \<Longrightarrow> readVarU32 p = Inl errUnexpectedEnd"
        by (rule framedE [OF framed_readVarU32 v]) blast
      obtain c2 where c2: "d2 = c2 @ d3" "\<And>ys. readNonCustomSec secID m (c2 @ ys) = Inr (m1, ys)"
        "\<And>p. strict_prefix p c2 \<Longrightarrow> readNonCustomSec secID m p = Inl errUnexpectedEnd"
        by (rule framedE [OF framed_readNonCustomSec s]) blast
      have n: "unat n = length c2" using sz c2(1) by simp
      from 2(2) c1(1) consider "strict_prefix q c1" | q1 where "q = c1 @ q1" "strict_prefix q1 d2"
        using strict_prefix_appendD by blast
      then show ?thesis
      proof cases
        case 1
        then show ?thesis using False g 2(1) by (simp add: readSections_Cons c1(3))
      next
        case 2
        note q = 2
        from q(2) c2(1) consider "strict_prefix q1 c2" | q2 where "q1 = c2 @ q2" "strict_prefix q2 d3"
          using strict_prefix_appendD by blast
        then show ?thesis
        proof cases
          case 1
          then show ?thesis using False g \<open>p = secID # q\<close> q(1)
            by (simp add: readSections_Cons c1(2) c2(3))
        next
          case 2
          have "length d3 < length data" by (simp add: data c1(1) c2(1))
          from "1.IH" [rule_format, OF this r 2(2)] show ?thesis
            using False g \<open>p = secID # q\<close> q(1) 2(1) n
            by (simp add: readSections_Cons c1(2) c2(2))
        qed
      qed
    qed
  qed
qed

definition Module_header :: Module where
  "Module_header = Module_zero\<lparr>Module_Magic := MagicNumber, Module_Version := Version\<rparr>"

definition whole_sections :: "byte list \<Rightarrow> bool" where
  "whole_sections data \<longleftrightarrow>
     8 \<le> length data \<and> snd (readSections 0 Module_header (drop 8 data)) = Inr []"

lemma Decode_short: "length data < 4 \<Longrightarrow> Decode data = (Module_zero, Some UnexpectedEndOfMagicHeader)"
  by (simp add: Decode_def readModule_def remaining_def)

lemma Decode_bad_magic:
  "4 \<le> length data \<Longrightarrow> LittleEndian_Uint32 data \<noteq> MagicNumber \<Longrightarrow>
   Decode data = (Module_zero\<lparr>Module_Magic := LittleEndian_Uint32 data\<rparr>, Some MagicHeaderNotDetected)"
  by (simp add: Decode_def readModule_def remaining_def readU32_def Let_def)

lemma Decode_short_version:
  "4 \<le> length data \<Longrightarrow> length data < 8 \<Longrightarrow> LittleEndian_Uint32 data = MagicNumber \<Longrightarrow>
   Decode data = (Module_zero\<lparr>Module_Magic := MagicNumber\<rparr>, Some UnexpectedEndOfBinaryVersion)"
  by (simp add: Decode_def readModule_def remaining_def readU32_def Let_def)

lemma Decode_bad_version:
  "8 \<le> length data \<Longrightarrow> LittleEndian_Uint32 data = MagicNumber \<Longrightarrow>
   LittleEndian_Uint32 (drop 4 data) \<noteq> Version \<Longrightarrow>
   Decode data = (Module_zero\<lparr>Module_Magic := MagicNumber,
                    Module_Version := LittleEndian_Uint32 (drop 4 data)\<rparr>,
                  Some (UnknownBinaryVersion (LittleEndian_Uint32 (drop 4 data))))"
  by (simp add: Decode_def readModule_def remaining_def readU32_def Let_def)

lemma Decode_sections:
  "8 \<le> length data \<Longrightarrow> LittleEndian_Uint32 data = MagicNumber \<Longrightarrow>
   LittleEndian_Uint32 (drop 4 data) = Version \<Longrightarrow>
   Decode data =
     (case readSections 0 Module_header (drop 8 data) of
        (module3, Inl e) \<Rightarrow> (module3, Some e)
      | (module3, Inr d3) \<Rightarrow>
          if length (FuncSec module3) \<noteq> length (CodeSec module3)
          then (module3, Some InconsistentLengths)
          else if length d3 > 0 then (module3, Some JunkAfterLastSection)
          else (module3, None))"
  by (auto simp: Decode_def readModule_def remaining_def readU32_def Module_header_def Let_def
      split: prod.splits sum.splits)

lemma Decode_NoneD:
  assumes "snd (Decode data) = None"
  shows "8 \<le> length data" "LittleEndian_Uint32 data = MagicNumber"
    "LittleEndian_Uint32 (drop 4 data) = Version"
proof -
  have 4: "4 \<le> length data" using assms Decode_short [of data] by (cases "length data < 4") auto
  then show m: "LittleEndian_Uint32 data = MagicNumber"
    using assms Decode_bad_magic [of data] by (cases "LittleEndian_Uint32 data = MagicNumber") auto
  show 8: "8 \<le> length data"
    using assms 4 m Decode_short_version [of data] by (cases "length data < 8") auto
  show "LittleEndian_Uint32 (drop 4 data) = Version"
    using assms 8 m Decode_bad_version [of data]
    by (cases "LittleEndian_Uint32 (drop 4 data) = Version") auto
qed

lemma LittleEndian_Uint32_take: "4 \<le> k \<Longrightarrow> LittleEndian_Uint32 (take k data) = LittleEndian_Uint32 data"
  by (simp add: LittleEndian_Uint32_def)

lemma prevSecID_history_Nil: "prevSecID_history prev m [] = []"
  by (simp add: prevSecID_history.simps remaining_def)

lemma prevSecID_history_Cons:
  "prevSecID_history prev m (secID # d1) =
     (if secID = SecCustomID then
        (case readCustomSec d1 of Inl e \<Rightarrow> []
         | Inr (sec, d2) \<Rightarrow> prevSecID_history prev (m\<lparr>CustomSecs := CustomSecs m @ [sec]\<rparr>) d2)
      else if secID > SecDataID then []
      else if secID \<le> prev then []
      else secID #
        (case readVarU32 d1 of Inl e \<Rightarrow> []
         | Inr (n, d2) \<Rightarrow>
            (case readNonCustomSec secID m d2 of Inl e \<Rightarrow> []
             | Inr (m', d3) \<Rightarrow>
                 if length d3 + unat n \<noteq> length d2 then []
                 else prevSecID_history secID m' d3)))"
  by (subst prevSecID_history.simps, unfold remaining_def) (simp add: readByte_def)

lemma prevSecID_history_increasing:
  "sorted_wrt (<) (prevSecID_history prev m data) \<and>
   (\<forall>i \<in> set (prevSecID_history prev m data). prev < i \<and> i \<le> SecDataID)"
proof (induction data arbitrary: prev m rule: length_induct)
  case (1 data)
  show ?case
  proof (cases data)
    case Nil
    then show ?thesis by (simp add: prevSecID_history_Nil)
  next
    case (Cons secID d1)
    show ?thesis
    proof (cases "secID = SecCustomID")
      case True
      show ?thesis
      proof (cases "readCustomSec d1")
        case (Inl e)
        with True Cons show ?thesis by (simp add: prevSecID_history_Cons)
      next
        case (Inr x)
        then obtain sec d2 where c: "readCustomSec d1 = Inr (sec, d2)" by (cases x) auto
        have "length d2 < length data"
          using framed_length [OF framed_readCustomSec c] Cons by simp
        from "1.IH" [rule_format, OF this, of prev "m\<lparr>CustomSecs := CustomSecs m @ [sec]\<rparr>"]
        show ?thesis using True Cons c by (simp add: prevSecID_history_Cons)
      qed
    next
      case False
      show ?thesis
      proof (cases "secID > SecDataID \<or> secID \<le> prev")
        case True
        with False Cons show ?thesis by (auto simp: prevSecID_history_Cons)
      next
        case ok: False
        show ?thesis
        proof (cases "readVarU32 d1")
          case (Inl e)
          with False ok Cons show ?thesis by (auto simp: prevSecID_history_Cons)
        next
          case (Inr x)
          then obtain n d2 where v: "readVarU32 d1 = Inr (n, d2)" by (cases x) auto
          show ?thesis
          proof (cases "readNonCustomSec secID m d2")
            case (Inl e)
            with False ok Cons v show ?thesis by (auto simp: prevSecID_history_Cons)
          next
            case (Inr y)
            then obtain m1 d3 where s: "readNonCustomSec secID m d2 = Inr (m1, d3)"
              by (cases y) auto
            have "length d3 < length data"
              using framed_length [OF framed_readVarU32 v]
                framed_length [OF framed_readNonCustomSec s] Cons by simp
            from "1.IH" [rule_format, OF this, of secID m1]
            show ?thesis using False ok Cons v s
              by (auto simp: prevSecID_history_Cons)
          qed
        qed
      qed
    qed
  qed
qed

subsection \<open>Auxiliary facts for the claims\<close>

definition LE32 :: "byte \<Rightarrow> byte \<Rightarrow> byte \<Rightarrow> byte \<Rightarrow> u32" where
  "LE32 a b c d = ucast a OR push_bit 8 (ucast b) OR push_bit 16 (ucast c) OR push_bit 24 (ucast d)"

lemma LE32_0: "ucast (LE32 a b c d) = a"
  unfolding LE32_def by (rule bit_word_eqI) (auto simp: bit_simps dest: bit_imp_le_length)

lemma LE32_1: "ucast (drop_bit 8 (LE32 a b c d)) = b"
  unfolding LE32_def by (rule bit_word_eqI) (auto simp: bit_simps dest: bit_imp_le_length)

lemma LE32_2: "ucast (drop_bit 16 (LE32 a b c d)) = c"
  unfolding LE32_def by (rule bit_word_eqI) (auto simp: bit_simps dest: bit_imp_le_length)

lemma LE32_3: "ucast (drop_bit 24 (LE32 a b c d)) = d"
  unfolding LE32_def by (rule bit_word_eqI) (auto simp: bit_simps dest: bit_imp_le_length)

lemma LE32_magic: "LE32 a b c d = MagicNumber \<longleftrightarrow> a = 0 \<and> b = 0x61 \<and> c = 0x73 \<and> d = 0x6D"
proof
  assume h: "LE32 a b c d = MagicNumber"
  have "a = ucast MagicNumber" "b = ucast (drop_bit 8 MagicNumber)"
    "c = ucast (drop_bit 16 MagicNumber)" "d = ucast (drop_bit 24 MagicNumber)"
    using LE32_0 [of a b c d] LE32_1 [of a b c d] LE32_2 [of a b c d] LE32_3 [of a b c d]
    unfolding h by simp_all
  then show "a = 0 \<and> b = 0x61 \<and> c = 0x73 \<and> d = 0x6D"
    by (simp add: MagicNumber_def)
next
  assume "a = 0 \<and> b = 0x61 \<and> c = 0x73 \<and> d = 0x6D"
  then show "LE32 a b c d = MagicNumber" by (simp add: LE32_def MagicNumber_def)
qed

lemma LittleEndian_Uint32_Cons:
  "LittleEndian_Uint32 (a # b # c # d # rest) = LE32 a b c d"
  by (simp add: LittleEndian_Uint32_def LE32_def)

lemma LE32_version: "LE32 a b c d = Version \<longleftrightarrow> a = 1 \<and> b = 0 \<and> c = 0 \<and> d = 0"
proof
  assume h: "LE32 a b c d = Version"
  have "a = ucast Version" "b = ucast (drop_bit 8 Version)"
    "c = ucast (drop_bit 16 Version)" "d = ucast (drop_bit 24 Version)"
    using LE32_0 [of a b c d] LE32_1 [of a b c d] LE32_2 [of a b c d] LE32_3 [of a b c d]
    unfolding h by simp_all
  then show "a = 1 \<and> b = 0 \<and> c = 0 \<and> d = 0"
    by (simp add: Version_def)
next
  assume "a = 1 \<and> b = 0 \<and> c = 0 \<and> d = 0"
  then show "LE32 a b c d = Version" by (simp add: LE32_def Version_def)
qed

lemma decodeVarUint_from_error:
  "decodeVarUint_from sz i acc data = Inl e \<Longrightarrow>
     e = errUnexpectedEnd \<or> e = errIntTooLong \<or> e = errIntTooLarge"
  by (induction data arbitrary: i acc) (auto simp: Let_def split: if_splits)

lemma readVarU32_error:
  "readVarU32 data = Inl e \<Longrightarrow> e = errUnexpectedEnd \<or> e = errIntTooLong \<or> e = errIntTooLarge"
  using decodeVarUint_from_error [of 32 0 0 data e]
  by (auto simp: readVarU32_def decodeVarUint_def split: sum.splits)

lemma readVec_length: "readVec n r data = Inr (xs, rest) \<Longrightarrow> length xs = n"
  by (induction n arbitrary: data xs rest)
     (auto simp: ret_def bnd_def split: sum.splits)

lemma readLocalsVec_length:
  "readLocalsVec data = Inr (locals, rest) \<Longrightarrow> length locals < 2 ^ 32"
proof -
  assume "readLocalsVec data = Inr (locals, rest)"
  then obtain n :: u32 where "length locals = unat n"
    by (auto simp: readLocalsVec_def bnd_def split: sum.splits dest: readVec_length)
  moreover have "unat n < 2 ^ 32" using unsigned_less [of n] by simp
  ultimately show ?thesis by simp
qed

lemma fold_local_count:
  "fold (\<lambda>locals n. n + ucast (Locals_N locals)) ls acc =
     acc + (of_nat (\<Sum>l\<leftarrow>ls. unat (Locals_N l)) :: u64)"
  by (induction ls arbitrary: acc) (simp_all add: algebra_simps)

lemma sum_locals_bound: "(\<Sum>l\<leftarrow>ls. unat (Locals_N l)) \<le> length ls * (2 ^ 32 - 1)"
proof (induction ls)
  case Nil
  then show ?case by simp
next
  case (Cons l ls)
  have "unat (Locals_N l) \<le> 2 ^ 32 - 1" proof -
    have "unat (Locals_N l) < 2 ^ 32" using unsigned_less [of "Locals_N l"] by simp
    then show ?thesis by simp
  qed
  with Cons show ?case by simp
qed

lemma GetLocalCount_exact:
  assumes "length (Code_Locals code) < 2 ^ 32"
  shows "unat (GetLocalCount code) = (\<Sum>l\<leftarrow>Code_Locals code. unat (Locals_N l))"
proof -
  let ?s = "\<Sum>l\<leftarrow>Code_Locals code. unat (Locals_N l)"
  have "?s \<le> length (Code_Locals code) * (2 ^ 32 - 1)" by (rule sum_locals_bound)
  also have "\<dots> \<le> (2 ^ 32 - 1) * (2 ^ 32 - 1)" using assms by simp
  also have "\<dots> < (2 :: nat) ^ 64" by simp
  finally have "?s < 2 ^ 64" .
  then show ?thesis
    by (simp add: GetLocalCount_def fold_local_count unat_of_nat)
qed








section \<open>The claims\<close>

text \<open>
  Claim C1, as the code has it. Let \<^verbatim>\<open>Decode\<close> accept \<open>data\<close>, and cut \<open>data\<close> at an offset
  \<open>k\<close> before its end. If the prefix is not the header followed by whole sections,
  \<^verbatim>\<open>Decode\<close> fails on it with an error of kind TruncatedInput: "unexpected end of magic
  header" below 4 bytes, "unexpected end of binary version" below 8, "unexpected end of
  section or function" inside a section. If it is (the cut is at the end of the header or
  of a section, so that the section loop reads the prefix to its end), the prefix is a
  module of its own: \<^verbatim>\<open>Decode\<close> succeeds on it, or fails with "function and code section
  have inconsistent lengths".
\<close>

theorem Decode_truncated:
  assumes ok: "snd (Decode data) = None" and k: "k < length data"
  shows "(k < 4 \<longrightarrow> snd (Decode (take k data)) = Some UnexpectedEndOfMagicHeader) \<and>
         (4 \<le> k \<and> k < 8 \<longrightarrow>
            snd (Decode (take k data)) = Some UnexpectedEndOfBinaryVersion) \<and>
         (8 \<le> k \<and> \<not> whole_sections (take k data) \<longrightarrow>
            snd (Decode (take k data)) = Some errUnexpectedEnd) \<and>
         (whole_sections (take k data) \<longrightarrow>
            8 \<le> k \<and>
            (snd (Decode (take k data)) = None \<or>
             snd (Decode (take k data)) = Some InconsistentLengths)) \<and>
         (\<not> whole_sections (take k data) \<longrightarrow>
            (\<exists>e. snd (Decode (take k data)) = Some e \<and> kind_of e = TruncatedInput))"
proof -
  note hd = Decode_NoneD [OF ok]
  let ?p = "take k data"
  consider "k < 4" | "4 \<le> k" "k < 8" | "8 \<le> k" by linarith
  then show ?thesis
  proof cases
    case 1
    then have "length ?p < 4" by simp
    from Decode_short [OF this] 1 k show ?thesis by (simp add: whole_sections_def)
  next
    case 2
    then have "4 \<le> length ?p" "length ?p < 8" "LittleEndian_Uint32 ?p = MagicNumber"
      using k hd(2) by (simp_all add: LittleEndian_Uint32_take)
    from Decode_short_version [OF this] 2 k show ?thesis by (simp add: whole_sections_def)
  next
    case 3
    then have p: "8 \<le> length ?p" "LittleEndian_Uint32 ?p = MagicNumber"
      "LittleEndian_Uint32 (drop 4 ?p) = Version"
      using k hd(2,3) by (simp_all add: LittleEndian_Uint32_take drop_take)
    note dp = Decode_sections [OF p]
    from ok Decode_sections [OF hd] obtain m3 d3 where
      rs: "readSections 0 Module_header (drop 8 data) = (m3, Inr d3)"
      by (auto split: prod.splits sum.splits if_splits)
    have "strict_prefix (drop 8 ?p) (drop 8 data)"
      using k 3
      by (auto simp: drop_take strict_prefix_def take_is_prefix
          dest: arg_cong [where f = length])
    from readSections_truncated [OF rs this]
    show ?thesis
    proof (elim disjE exE)
      fix m'' assume "readSections 0 Module_header (drop 8 ?p) = (m'', Inl errUnexpectedEnd)"
      then show ?thesis using dp 3 by (simp add: whole_sections_def)
    next
      fix m'' assume "readSections 0 Module_header (drop 8 ?p) = (m'', Inr [])"
      then show ?thesis using dp p(1) 3 by (simp add: whole_sections_def)
    qed
  qed
qed

theorem Decode_truncated_witness:
  "(\<exists>e. snd (Decode (take 13 ([0x00, 0x61, 0x73, 0x6D, 0x01, 0x00, 0x00, 0x00] @
                [0x01, 0x05, 0x01, 0x60, 0x00, 0x01, 0x7F] @
                [0x03, 0x02, 0x01, 0x00] @
                [0x0A, 0x04, 0x01, 0x02, 0x00, 0x0B]))) = Some e \<and> kind_of e = TruncatedInput) \<and>
   (snd (Decode (take 15 ([0x00, 0x61, 0x73, 0x6D, 0x01, 0x00, 0x00, 0x00] @
                [0x01, 0x05, 0x01, 0x60, 0x00, 0x01, 0x7F] @
                [0x03, 0x02, 0x01, 0x00] @
                [0x0A, 0x04, 0x01, 0x02, 0x00, 0x0B]))) = None \<or>
    snd (Decode (take 15 ([0x00, 0x61, 0x73, 0x6D, 0x01, 0x00, 0x00, 0x00] @
                [0x01, 0x05, 0x01, 0x60, 0x00, 0x01, 0x7F] @
                [0x03, 0x02, 0x01, 0x00] @
                [0x0A, 0x04, 0x01, 0x02, 0x00, 0x0B]))) = Some InconsistentLengths)"
proof -
  let ?d = "[0x00, 0x61, 0x73, 0x6D, 0x01, 0x00, 0x00, 0x00] @
                [0x01, 0x05, 0x01, 0x60, 0x00, 0x01, 0x7F] @
                [0x03, 0x02, 0x01, 0x00] @
                [0x0A, 0x04, 0x01, 0x02, 0x00, 0x0B] :: byte list"
  have ok: "snd (Decode ?d) = None" by code_simp
  have k: "13 < length ?d" "15 < length ?d" by simp_all
  have n: "\<not> whole_sections (take 13 ?d)" by code_simp
  have w: "whole_sections (take 15 ?d)" by code_simp
  from Decode_truncated [OF ok k(1)] n Decode_truncated [OF ok k(2)] w
  show ?thesis by blast
qed

theorem Decode_truncated_counterexample:
  "snd (Decode ([0x00, 0x61, 0x73, 0x6D, 0x01, 0x00, 0x00, 0x00] @
                [0x01, 0x05, 0x01, 0x60, 0x00, 0x01, 0x7F] @
                [0x03, 0x02, 0x01, 0x00] @
                [0x0A, 0x04, 0x01, 0x02, 0x00, 0x0B])) = None \<and>
   snd (Decode (take 15 ([0x00, 0x61, 0x73, 0x6D, 0x01, 0x00, 0x00, 0x00] @
                [0x01, 0x05, 0x01, 0x60, 0x00, 0x01, 0x7F] @
                [0x03, 0x02, 0x01, 0x00] @
                [0x0A, 0x04, 0x01, 0x02, 0x00, 0x0B]))) = None \<and>
   snd (Decode (take 19 ([0x00, 0x61, 0x73, 0x6D, 0x01, 0x00, 0x00, 0x00] @
                [0x01, 0x05, 0x01, 0x60, 0x00, 0x01, 0x7F] @
                [0x03, 0x02, 0x01, 0x00] @
                [0x0A, 0x04, 0x01, 0x02, 0x00, 0x0B]))) = Some InconsistentLengths \<and>
   kind_of InconsistentLengths = StructuralViolation"
  by code_simp




text \<open>
  Claim C3. In the section loop \<^verbatim>\<open>prevSecID\<close> is the id of the last standard section
  seen (0 at the start, never above 11). A standard section id that is not above it makes
  the loop fail with "junk after last section"; an accepted standard section becomes the
  new \<^verbatim>\<open>prevSecID\<close>; a custom section (id 0) is read at any point, any number of times,
  and leaves \<^verbatim>\<open>prevSecID\<close> as it is. So for every input the standard section ids that
  the loop accepts are strictly increasing and lie between 1 and 11, each at most once.
\<close>

theorem section_order:
  "(secID \<noteq> SecCustomID \<and> secID \<le> prevSecID \<and> prevSecID \<le> SecDataID \<longrightarrow>
      readSections prevSecID module (secID # rest) =
        (module, Inl (JunkAfterLastSectionId secID)) \<and>
      kind_of (JunkAfterLastSectionId secID) = StructuralViolation) \<and>
   (secID \<noteq> SecCustomID \<and> secID \<le> SecDataID \<and> prevSecID < secID \<and>
    readVarU32 rest = Inr (n, d2) \<and> readNonCustomSec secID module d2 = Inr (module', d3) \<and>
    length d3 + unat n = length d2 \<longrightarrow>
      readSections prevSecID module (secID # rest) = readSections secID module' d3) \<and>
   (readCustomSec rest = Inr (sec, d2') \<longrightarrow>
      readSections prevSecID module (SecCustomID # rest) =
        readSections prevSecID (module\<lparr>CustomSecs := CustomSecs module @ [sec]\<rparr>) d2') \<and>
   sorted_wrt (<) (prevSecID_history prevSecID module data) \<and>
   distinct (prevSecID_history prevSecID module data) \<and>
   (\<forall>i \<in> set (prevSecID_history prevSecID module data). prevSecID < i \<and> i \<le> SecDataID)"
proof -
  have "sorted_wrt (<) (prevSecID_history prevSecID module data)"
    using prevSecID_history_increasing by blast
  then have "distinct (prevSecID_history prevSecID module data)"
    by (simp add: strict_sorted_iff)
  then show ?thesis
    using prevSecID_history_increasing [of prevSecID module data]
    by (auto simp: readSections_Cons)
qed

theorem section_order_witness:
  "snd (readSections 0 Module_zero [0x01, 0x01, 0x00, 0x01, 0x01, 0x00]) =
     Inl (JunkAfterLastSectionId 1) \<and>
   snd (readSections 0 Module_zero [0x02, 0x01, 0x00, 0x01, 0x01, 0x00]) =
     Inl (JunkAfterLastSectionId 1) \<and>
   snd (readSections 0 Module_zero
          [0x00, 0x01, 0x00, 0x01, 0x01, 0x00, 0x00, 0x02, 0x01, 0x41, 0x00, 0x01, 0x00,
           0x03, 0x01, 0x00]) = Inr [] \<and>
   prevSecID_history 0 Module_zero
          [0x00, 0x01, 0x00, 0x01, 0x01, 0x00, 0x00, 0x02, 0x01, 0x41, 0x00, 0x01, 0x00,
           0x03, 0x01, 0x00] = [1, 3] \<and>
   sorted_wrt (<) [1, 3 :: byte] \<and> (1 :: byte) \<le> SecDataID \<and> (3 :: byte) \<le> SecDataID"
proof -
  have j1: "(1 :: byte) \<noteq> SecCustomID \<and> (1 :: byte) \<le> 1 \<and> (1 :: byte) \<le> SecDataID"
    and j2: "(1 :: byte) \<noteq> SecCustomID \<and> (1 :: byte) \<le> 2 \<and> (2 :: byte) \<le> SecDataID"
    by (simp_all add: SecID_defs)
  have s1: "(1 :: byte) \<noteq> SecCustomID \<and> (1 :: byte) \<le> SecDataID \<and> (0 :: byte) < 1 \<and>
      readVarU32 [0x01, 0x00, 0x01, 0x01, 0x00] = Inr (1, [0x00, 0x01, 0x01, 0x00]) \<and>
      readNonCustomSec 1 Module_zero [0x00, 0x01, 0x01, 0x00] =
        Inr (Module_zero\<lparr>TypeSec := []\<rparr>, [0x01, 0x01, 0x00]) \<and>
      length [0x01, 0x01, 0x00 :: byte] + unat (1 :: u32) = length [0x00, 0x01, 0x01, 0x00 :: byte]"
    by code_simp
  have s2: "(2 :: byte) \<noteq> SecCustomID \<and> (2 :: byte) \<le> SecDataID \<and> (0 :: byte) < 2 \<and>
      readVarU32 [0x01, 0x00, 0x01, 0x01, 0x00] = Inr (1, [0x00, 0x01, 0x01, 0x00]) \<and>
      readNonCustomSec 2 Module_zero [0x00, 0x01, 0x01, 0x00] =
        Inr (Module_zero\<lparr>ImportSec := []\<rparr>, [0x01, 0x01, 0x00]) \<and>
      length [0x01, 0x01, 0x00 :: byte] + unat (1 :: u32) = length [0x00, 0x01, 0x01, 0x00 :: byte]"
    by code_simp
  have c: "readCustomSec [0x01, 0x00, 0x01, 0x01, 0x00, 0x00, 0x02, 0x01, 0x41, 0x00, 0x01, 0x00,
           0x03, 0x01, 0x00] =
     Inr (\<lparr>CustomSec_Name = [], CustomSec_Bytes = []\<rparr>,
          [0x01, 0x01, 0x00, 0x00, 0x02, 0x01, 0x41, 0x00, 0x01, 0x00, 0x03, 0x01, 0x00])"
    by code_simp
  have r: "snd (readSections 0 (Module_zero\<lparr>CustomSecs := CustomSecs Module_zero @
              [\<lparr>CustomSec_Name = [], CustomSec_Bytes = []\<rparr>]\<rparr>)
          [0x01, 0x01, 0x00, 0x00, 0x02, 0x01, 0x41, 0x00, 0x01, 0x00, 0x03, 0x01, 0x00]) = Inr []"
    by code_simp
  have h: "prevSecID_history 0 Module_zero
          [0x00, 0x01, 0x00, 0x01, 0x01, 0x00, 0x00, 0x02, 0x01, 0x41, 0x00, 0x01, 0x00,
           0x03, 0x01, 0x00] = [1, 3]"
    by code_simp
  from section_order [of 1 1 "Module_zero\<lparr>TypeSec := []\<rparr>" "[0x01, 0x00]",
      THEN conjunct1, rule_format, OF j1]
    section_order [of 1 0 Module_zero "[0x01, 0x00, 0x01, 0x01, 0x00]",
      THEN conjunct2, THEN conjunct1, rule_format, OF s1]
    section_order [of 1 2 "Module_zero\<lparr>ImportSec := []\<rparr>" "[0x01, 0x00]",
      THEN conjunct1, rule_format, OF j2]
    section_order [of 2 0 Module_zero "[0x01, 0x00, 0x01, 0x01, 0x00]",
      THEN conjunct2, THEN conjunct1, rule_format, OF s2]
    section_order [where prevSecID = 0 and module = Module_zero,
      THEN conjunct2, THEN conjunct2, THEN conjunct1, rule_format, OF c]
    section_order [where prevSecID = 0 and module = Module_zero and data =
        "[0x00, 0x01, 0x00, 0x01, 0x01, 0x00, 0x00, 0x02, 0x01, 0x41, 0x00, 0x01, 0x00,
           0x03, 0x01, 0x00]",
      THEN conjunct2, THEN conjunct2, THEN conjunct2]
    r h
  show ?thesis by (simp add: SecID_defs)
qed

text \<open>
  Claim C4. For a standard section (id 1 to 11, above the previous id) whose declared
  length \<open>n\<close> was read and whose body decoder returned, the bytes left are a suffix of the
  bytes there were before the body, and the loop goes on exactly when the number of bytes
  consumed, remaining-before minus remaining-after, equals \<open>n\<close>; otherwise it fails with
  "section size mismatch".
\<close>

theorem section_size_check:
  assumes "secID \<noteq> SecCustomID" and "secID \<le> SecDataID" and "prevSecID < secID"
    and "readVarU32 d1 = Inr (n, d2)"
    and "readNonCustomSec secID module d2 = Inr (module', d3)"
  shows "suffix d3 d2 \<and>
         readSections prevSecID module (secID # d1) =
           (if length d2 - length d3 = unat n then readSections secID module' d3
            else (module', Inl (SectionSizeMismatch secID)))"
proof -
  obtain c where c: "d2 = c @ d3"
    by (rule framedE [OF framed_readNonCustomSec assms(5)]) blast
  then have "suffix d3 d2" by (simp add: suffix_def)
  moreover have "length d3 + unat n \<noteq> length d2 \<longleftrightarrow> length d2 - length d3 \<noteq> unat n"
    using c by auto
  ultimately show ?thesis
    using assms by (simp add: readSections_Cons not_less [symmetric])
qed

theorem section_size_check_witness:
  "readSections 0 Module_zero [0x01, 0x06, 0x01, 0x60, 0x00, 0x01, 0x7F, 0x00] =
     (Module_zero\<lparr>TypeSec := [\<lparr>FuncType_Tag = 0x60, ParamTypes = [], ResultTypes = [0x7F]\<rparr>]\<rparr>,
      Inl (SectionSizeMismatch 1)) \<and>
   readSections 0 Module_zero [0x01, 0x04, 0x01, 0x60, 0x00, 0x01, 0x7F] =
     (Module_zero\<lparr>TypeSec := [\<lparr>FuncType_Tag = 0x60, ParamTypes = [], ResultTypes = [0x7F]\<rparr>]\<rparr>,
      Inl (SectionSizeMismatch 1)) \<and>
   readSections 0 Module_zero [0x01, 0x05, 0x01, 0x60, 0x00, 0x01, 0x7F] =
     (Module_zero\<lparr>TypeSec := [\<lparr>FuncType_Tag = 0x60, ParamTypes = [], ResultTypes = [0x7F]\<rparr>]\<rparr>,
      Inr [])"
proof -
  let ?m = "Module_zero\<lparr>TypeSec := [\<lparr>FuncType_Tag = 0x60, ParamTypes = [], ResultTypes = [0x7F]\<rparr>]\<rparr>"
  have id: "(1 :: byte) \<noteq> SecCustomID" "(1 :: byte) \<le> SecDataID" "(0 :: byte) < 1"
    by (simp_all add: SecID_defs)
  have n6: "readVarU32 [0x06, 0x01, 0x60, 0x00, 0x01, 0x7F, 0x00] =
      Inr (6, [0x01, 0x60, 0x00, 0x01, 0x7F, 0x00])" by code_simp
  have n4: "readVarU32 [0x04, 0x01, 0x60, 0x00, 0x01, 0x7F] =
      Inr (4, [0x01, 0x60, 0x00, 0x01, 0x7F])" by code_simp
  have n5: "readVarU32 [0x05, 0x01, 0x60, 0x00, 0x01, 0x7F] =
      Inr (5, [0x01, 0x60, 0x00, 0x01, 0x7F])" by code_simp
  have b6: "readNonCustomSec 1 Module_zero [0x01, 0x60, 0x00, 0x01, 0x7F, 0x00] = Inr (?m, [0x00])"
    by code_simp
  have b5: "readNonCustomSec 1 Module_zero [0x01, 0x60, 0x00, 0x01, 0x7F] = Inr (?m, [])"
    by code_simp
  from section_size_check [OF id n6 b6] section_size_check [OF id n4 b5]
    section_size_check [OF id n5 b5]
  show ?thesis by (simp add: readSections_Nil)
qed

text \<open>
  Claim C5. The canonical 8-byte header alone (magic \<open>0x6D736100\<close>, then version 1, both
  little-endian) decodes without error to a module that has only the magic and the version
  set and no section. An input that starts with any other four bytes fails with
  "magic header not detected"; an input of fewer than 4 bytes fails with "unexpected end of
  magic header"; the right magic followed by four bytes that are not version 1 fails with
  "unknown binary version".
\<close>

theorem Decode_magic_version:
  "Decode [0x00, 0x61, 0x73, 0x6D, 0x01, 0x00, 0x00, 0x00] =
     (Module_zero\<lparr>Module_Magic := 0x6D736100, Module_Version := 1\<rparr>, None) \<and>
   ([b0, b1, b2, b3] \<noteq> [0x00, 0x61, 0x73, 0x6D] \<longrightarrow>
      snd (Decode (b0 # b1 # b2 # b3 # rest)) = Some MagicHeaderNotDetected) \<and>
   (length data < 4 \<longrightarrow> snd (Decode data) = Some UnexpectedEndOfMagicHeader) \<and>
   ([v0, v1, v2, v3] \<noteq> [0x01, 0x00, 0x00, 0x00] \<longrightarrow>
      snd (Decode (0x00 # 0x61 # 0x73 # 0x6D # v0 # v1 # v2 # v3 # rest')) =
        Some (UnknownBinaryVersion (LittleEndian_Uint32 [v0, v1, v2, v3])))"
proof (intro conjI impI)
  let ?h = "[0x00, 0x61, 0x73, 0x6D, 0x01, 0x00, 0x00, 0x00] :: byte list"
  have "LittleEndian_Uint32 ?h = MagicNumber" "LittleEndian_Uint32 (drop 4 ?h) = Version"
    by (simp_all add: LittleEndian_Uint32_Cons LE32_magic LE32_version)
  then have "Decode ?h = (Module_header, None)"
    by (subst Decode_sections) (simp_all add: readSections_Nil Module_header_def Module_zero_def)
  then show "Decode ?h = (Module_zero\<lparr>Module_Magic := 0x6D736100, Module_Version := 1\<rparr>, None)"
    by (simp add: Module_header_def MagicNumber_def Version_def)
next
  assume "[b0, b1, b2, b3] \<noteq> [0x00, 0x61, 0x73, 0x6D]"
  then have "LittleEndian_Uint32 (b0 # b1 # b2 # b3 # rest) \<noteq> MagicNumber"
    by (simp add: LittleEndian_Uint32_Cons LE32_magic)
  then show "snd (Decode (b0 # b1 # b2 # b3 # rest)) = Some MagicHeaderNotDetected"
    by (simp add: Decode_bad_magic)
next
  assume "length data < 4"
  then show "snd (Decode data) = Some UnexpectedEndOfMagicHeader"
    by (simp add: Decode_short)
next
  let ?d = "0x00 # 0x61 # 0x73 # 0x6D # v0 # v1 # v2 # v3 # rest'"
  assume "[v0, v1, v2, v3] \<noteq> [0x01, 0x00, 0x00, 0x00]"
  then have "LittleEndian_Uint32 (drop 4 ?d) \<noteq> Version"
    by (simp add: LittleEndian_Uint32_Cons LE32_version)
  moreover have "LittleEndian_Uint32 ?d = MagicNumber"
    by (simp add: LittleEndian_Uint32_Cons LE32_magic)
  moreover have "LittleEndian_Uint32 (drop 4 ?d) = LittleEndian_Uint32 [v0, v1, v2, v3]"
    by (simp add: LittleEndian_Uint32_Cons)
  ultimately show "snd (Decode ?d) = Some (UnknownBinaryVersion (LittleEndian_Uint32 [v0, v1, v2, v3]))"
    by (simp add: Decode_bad_version)
qed

theorem Decode_magic_version_witness:
  "snd (Decode [0x01, 0x61, 0x73, 0x6D, 0x01, 0x00, 0x00, 0x00]) = Some MagicHeaderNotDetected \<and>
   snd (Decode [0x00, 0x61, 0x73]) = Some UnexpectedEndOfMagicHeader \<and>
   snd (Decode [0x00, 0x61, 0x73, 0x6D, 0x02, 0x00, 0x00, 0x00]) = Some (UnknownBinaryVersion 2)"
  using Decode_magic_version [of 1 "0x61" "0x73" "0x6D" "[0x01, 0x00, 0x00, 0x00]" "[0x00, 0x61, 0x73]"
      2 0 0 0 "[]"]
  by (simp add: LittleEndian_Uint32_def)

text \<open>
  Claim C6. Every module that \<^verbatim>\<open>Decode\<close> returns without error has a function-index
  section and a code section of the same length. Whenever the section loop ends without
  error on a module where the two lengths differ, \<^verbatim>\<open>Decode\<close> fails with "function and
  code section have inconsistent lengths"; so does the input with a type section, a
  function-index section of 2 entries and a code section of 1 entry.
\<close>

theorem Decode_func_code_lengths:
  "(snd (Decode data) = None \<longrightarrow>
      length (FuncSec (fst (Decode data))) = length (CodeSec (fst (Decode data)))) \<and>
   (8 \<le> length data \<and> LittleEndian_Uint32 data = MagicNumber \<and>
    LittleEndian_Uint32 (drop 4 data) = Version \<and>
    readSections 0 Module_header (drop 8 data) = (m, Inr r) \<and>
    length (FuncSec m) \<noteq> length (CodeSec m) \<longrightarrow>
      Decode data = (m, Some InconsistentLengths)) \<and>
   snd (Decode ([0x00, 0x61, 0x73, 0x6D, 0x01, 0x00, 0x00, 0x00] @
                [0x01, 0x05, 0x01, 0x60, 0x00, 0x01, 0x7F] @
                [0x03, 0x03, 0x02, 0x00, 0x00] @
                [0x0A, 0x04, 0x01, 0x02, 0x00, 0x0B])) = Some InconsistentLengths \<and>
   kind_of InconsistentLengths = StructuralViolation"
proof (intro conjI impI)
  assume ok: "snd (Decode data) = None"
  note hd = Decode_NoneD [OF ok]
  show "length (FuncSec (fst (Decode data))) = length (CodeSec (fst (Decode data)))"
    using ok unfolding Decode_sections [OF hd]
    by (auto split: prod.splits sum.splits if_splits)
next
  assume "8 \<le> length data \<and> LittleEndian_Uint32 data = MagicNumber \<and>
    LittleEndian_Uint32 (drop 4 data) = Version \<and>
    readSections 0 Module_header (drop 8 data) = (m, Inr r) \<and>
    length (FuncSec m) \<noteq> length (CodeSec m)"
  then show "Decode data = (m, Some InconsistentLengths)"
    by (simp add: Decode_sections)
next
  show "snd (Decode ([0x00, 0x61, 0x73, 0x6D, 0x01, 0x00, 0x00, 0x00] @
                [0x01, 0x05, 0x01, 0x60, 0x00, 0x01, 0x7F] @
                [0x03, 0x03, 0x02, 0x00, 0x00] @
                [0x0A, 0x04, 0x01, 0x02, 0x00, 0x0B])) = Some InconsistentLengths"
    by code_simp
next
  show "kind_of InconsistentLengths = StructuralViolation" by simp
qed

theorem Decode_func_code_lengths_witness:
  "snd (Decode ([0x00, 0x61, 0x73, 0x6D, 0x01, 0x00, 0x00, 0x00] @
                [0x01, 0x05, 0x01, 0x60, 0x00, 0x01, 0x7F] @
                [0x03, 0x02, 0x01, 0x00] @
                [0x0A, 0x04, 0x01, 0x02, 0x00, 0x0B])) = None \<and>
   FuncSec (fst (Decode ([0x00, 0x61, 0x73, 0x6D, 0x01, 0x00, 0x00, 0x00] @
                [0x01, 0x05, 0x01, 0x60, 0x00, 0x01, 0x7F] @
                [0x03, 0x02, 0x01, 0x00] @
                [0x0A, 0x04, 0x01, 0x02, 0x00, 0x0B]))) = [0] \<and>
   length (CodeSec (fst (Decode ([0x00, 0x61, 0x73, 0x6D, 0x01, 0x00, 0x00, 0x00] @
                [0x01, 0x05, 0x01, 0x60, 0x00, 0x01, 0x7F] @
                [0x03, 0x02, 0x01, 0x00] @
                [0x0A, 0x04, 0x01, 0x02, 0x00, 0x0B])))) = 1 \<and>
   Decode ([0x00, 0x61, 0x73, 0x6D, 0x01, 0x00, 0x00, 0x00] @ [0x03, 0x02, 0x01, 0x00]) =
     (Module_header\<lparr>FuncSec := [0]\<rparr>, Some InconsistentLengths)"
proof -
  let ?good = "[0x00, 0x61, 0x73, 0x6D, 0x01, 0x00, 0x00, 0x00] @
                [0x01, 0x05, 0x01, 0x60, 0x00, 0x01, 0x7F] @
                [0x03, 0x02, 0x01, 0x00] @
                [0x0A, 0x04, 0x01, 0x02, 0x00, 0x0B] :: byte list"
  let ?bad = "[0x00, 0x61, 0x73, 0x6D, 0x01, 0x00, 0x00, 0x00] @ [0x03, 0x02, 0x01, 0x00] :: byte list"
  have g: "snd (Decode ?good) = None" by code_simp
  have f: "FuncSec (fst (Decode ?good)) = [0]" by code_simp
  have b: "8 \<le> length ?bad \<and> LittleEndian_Uint32 ?bad = MagicNumber \<and>
    LittleEndian_Uint32 (drop 4 ?bad) = Version \<and>
    readSections 0 Module_header (drop 8 ?bad) = (Module_header\<lparr>FuncSec := [0]\<rparr>, Inr []) \<and>
    length (FuncSec (Module_header\<lparr>FuncSec := [0]\<rparr>)) \<noteq> length (CodeSec (Module_header\<lparr>FuncSec := [0]\<rparr>))"
    by code_simp
  from Decode_func_code_lengths [of ?good, THEN conjunct1, rule_format, OF g]
    Decode_func_code_lengths [of ?bad "Module_header\<lparr>FuncSec := [0]\<rparr>" "[]",
      THEN conjunct2, THEN conjunct1, rule_format, OF b] g f
  show ?thesis by simp
qed

text \<open>
  Claim C7. The unsigned 32-bit decoder maps the byte \<open>0x00\<close> to 0, consuming 1 byte, and
  the bytes \<open>0xE5 0x8E 0x26\<close> to 624485, consuming 3 bytes. Five bytes that all carry the
  continuation bit, so that a sixth byte would have to follow, fail with "integer
  representation too long", whatever comes after them. The signed 32-bit decoder maps the
  byte \<open>0x7F\<close> to -1.
\<close>

theorem varint_examples:
  "decodeVarUint [0x00] 32 = Inr (0, 1) \<and> readVarU32 [0x00] = Inr (0, []) \<and>
   decodeVarUint [0xE5, 0x8E, 0x26] 32 = Inr (624485, 3) \<and>
   readVarU32 [0xE5, 0x8E, 0x26] = Inr (624485, []) \<and>
   (b0 AND 0x80 \<noteq> 0 \<and> b1 AND 0x80 \<noteq> 0 \<and> b2 AND 0x80 \<noteq> 0 \<and> b3 AND 0x80 \<noteq> 0 \<and>
    b4 AND 0x80 \<noteq> 0 \<longrightarrow>
      decodeVarUint (b0 # b1 # b2 # b3 # b4 # rest) 32 = Inl errIntTooLong \<and>
      readVarU32 (b0 # b1 # b2 # b3 # b4 # rest) = Inl errIntTooLong) \<and>
   kind_of errIntTooLong = IntegerEncodingError \<and>
   decodeVarInt [0x7F] 32 = Inr (- 1, 1) \<and>
   (\<exists>v. readVarS32 [0x7F] = Inr (v, []) \<and> sint v = - 1)"
proof -
  have s: "(127 :: u64) OR push_bit 7 (- 1) = - 1"
    by code_simp
  have u: "(ucast (- 1 :: u64) :: u32) = - 1"
    by code_simp
  have "decodeVarInt [0x7F] 32 = Inr (- 1, 1)"
    unfolding decodeVarInt_def using s by simp
  then show ?thesis
    by (simp add: decodeVarUint_def readVarU32_def readVarS32_def u)
qed

theorem varint_examples_witness:
  "readVarU32 [0x80, 0x80, 0x80, 0x80, 0x80, 0x00] = Inl errIntTooLong \<and>
   kind_of errIntTooLong = IntegerEncodingError"
  using varint_examples [of "0x80" "0x80" "0x80" "0x80" "0x80" "[0x00]"]
  by simp

text \<open>
  Claim C8. For a code entry whose bytes were cut out and whose Locals vector was decoded,
  \<^verbatim>\<open>GetLocalCount\<close> is the exact sum of the repeat-counts (the 64-bit addition does not
  wrap, a vector having fewer than \<open>2 ^ 32\<close> entries), and \<^verbatim>\<open>readCode\<close> fails with "too
  many locals" exactly when that sum is at least \<^verbatim>\<open>math.MaxUint32\<close> = \<open>2 ^ 32 - 1\<close>; below
  it the entry is accepted.
\<close>

theorem readCode_local_count:
  assumes "readBytes data = Inr (codeData, rest)"
    and "readLocalsVec codeData = Inr (locals, body)"
  shows "unat (GetLocalCount \<lparr>Code_Locals = locals, Code_Expr = Expr_nil\<rparr>) =
           (\<Sum>l\<leftarrow>locals. unat (Locals_N l)) \<and>
         readCode data =
           (if (\<Sum>l\<leftarrow>locals. unat (Locals_N l)) \<ge> 2 ^ 32 - 1
            then Inl (TooManyLocals (of_nat (\<Sum>l\<leftarrow>locals. unat (Locals_N l))))
            else Inr (\<lparr>Code_Locals = locals, Code_Expr = Expr_nil\<rparr>, rest))"
proof -
  let ?code = "\<lparr>Code_Locals = locals, Code_Expr = Expr_nil\<rparr>"
  let ?s = "\<Sum>l\<leftarrow>locals. unat (Locals_N l)"
  have ex: "unat (GetLocalCount ?code) = ?s"
    using GetLocalCount_exact [of ?code] readLocalsVec_length [OF assms(2)] by simp
  have "(0xFFFFFFFF :: u64) \<le> GetLocalCount ?code \<longleftrightarrow> 2 ^ 32 - 1 \<le> ?s"
    by (simp add: word_le_nat_alt ex)
  moreover have "GetLocalCount ?code = of_nat ?s"
    using ex by (metis of_nat_unat ucast_id)
  ultimately show ?thesis
    using assms ex by (simp add: readCode_def bnd_def panic_def ret_def Let_def)
qed

theorem readCode_local_count_witness:
  "readCode [0x08, 0x01, 0xFF, 0xFF, 0xFF, 0xFF, 0x0F, 0x7F, 0x0B] =
     Inl (TooManyLocals 4294967295) \<and>
   readCode [0x08, 0x01, 0xFE, 0xFF, 0xFF, 0xFF, 0x0F, 0x7F, 0x0B] =
     Inr (\<lparr>Code_Locals = [\<lparr>Locals_N = 4294967294, Locals_Type = 0x7F\<rparr>], Code_Expr = Expr_nil\<rparr>, []) \<and>
   readCode [0x0E, 0x02, 0xFF, 0xFF, 0xFF, 0xFF, 0x0F, 0x7F, 0xFF, 0xFF, 0xFF, 0xFF, 0x0F, 0x7E,
             0x0B] = Inl (TooManyLocals 8589934590)"
proof -
  have b1: "readBytes [0x08, 0x01, 0xFF, 0xFF, 0xFF, 0xFF, 0x0F, 0x7F, 0x0B] =
      Inr ([0x01, 0xFF, 0xFF, 0xFF, 0xFF, 0x0F, 0x7F, 0x0B], [])" by code_simp
  have l1: "readLocalsVec [0x01, 0xFF, 0xFF, 0xFF, 0xFF, 0x0F, 0x7F, 0x0B] =
      Inr ([\<lparr>Locals_N = 4294967295, Locals_Type = 0x7F\<rparr>], [0x0B])" by code_simp
  have b2: "readBytes [0x08, 0x01, 0xFE, 0xFF, 0xFF, 0xFF, 0x0F, 0x7F, 0x0B] =
      Inr ([0x01, 0xFE, 0xFF, 0xFF, 0xFF, 0x0F, 0x7F, 0x0B], [])" by code_simp
  have l2: "readLocalsVec [0x01, 0xFE, 0xFF, 0xFF, 0xFF, 0x0F, 0x7F, 0x0B] =
      Inr ([\<lparr>Locals_N = 4294967294, Locals_Type = 0x7F\<rparr>], [0x0B])" by code_simp
  have b3: "readBytes [0x0E, 0x02, 0xFF, 0xFF, 0xFF, 0xFF, 0x0F, 0x7F, 0xFF, 0xFF, 0xFF, 0xFF, 0x0F,
        0x7E, 0x0B] =
      Inr ([0x02, 0xFF, 0xFF, 0xFF, 0xFF, 0x0F, 0x7F, 0xFF, 0xFF, 0xFF, 0xFF, 0x0F, 0x7E, 0x0B], [])"
    by code_simp
  have l3: "readLocalsVec [0x02, 0xFF, 0xFF, 0xFF, 0xFF, 0x0F, 0x7F, 0xFF, 0xFF, 0xFF, 0xFF, 0x0F,
        0x7E, 0x0B] =
      Inr ([\<lparr>Locals_N = 4294967295, Locals_Type = 0x7F\<rparr>,
            \<lparr>Locals_N = 4294967295, Locals_Type = 0x7E\<rparr>], [0x0B])" by code_simp
  from readCode_local_count [OF b1 l1] readCode_local_count [OF b2 l2]
    readCode_local_count [OF b3 l3]
  show ?thesis by simp
qed

text \<open>
  Claim C9. \<^verbatim>\<open>readLimits\<close> never fails because of the flag byte. With any flag other than
  1 (2 and \<open>0xFF\<close> as well as 0) it reads the minimum only and leaves the maximum 0; with
  flag 1 it reads minimum and maximum. Its only errors are those of reading a byte or a
  variable-length integer.
\<close>

theorem readLimits_flag:
  "(tag \<noteq> 1 \<longrightarrow>
      readLimits (tag # rest) =
        (case readVarU32 rest of Inl e \<Rightarrow> Inl e
         | Inr (lo, r) \<Rightarrow> Inr (\<lparr>Limits_Tag = tag, Limits_Min = lo, Limits_Max = 0\<rparr>, r))) \<and>
   (tag = 1 \<longrightarrow>
      readLimits (tag # rest) =
        (case readVarU32 rest of Inl e \<Rightarrow> Inl e
         | Inr (lo, r) \<Rightarrow>
             (case readVarU32 r of Inl e \<Rightarrow> Inl e
              | Inr (hi, r') \<Rightarrow>
                  Inr (\<lparr>Limits_Tag = tag, Limits_Min = lo, Limits_Max = hi\<rparr>, r')))) \<and>
   (readLimits data = Inl e \<longrightarrow>
      e = errUnexpectedEnd \<or> e = errIntTooLong \<or> e = errIntTooLarge)"
proof (intro conjI impI)
  assume "tag \<noteq> 1"
  then show "readLimits (tag # rest) =
        (case readVarU32 rest of Inl e \<Rightarrow> Inl e
         | Inr (lo, r) \<Rightarrow> Inr (\<lparr>Limits_Tag = tag, Limits_Min = lo, Limits_Max = 0\<rparr>, r))"
    by (simp add: readLimits_def bnd_def ret_def readByte_def split: sum.splits)
next
  assume "tag = 1"
  then show "readLimits (tag # rest) =
        (case readVarU32 rest of Inl e \<Rightarrow> Inl e
         | Inr (lo, r) \<Rightarrow>
             (case readVarU32 r of Inl e \<Rightarrow> Inl e
              | Inr (hi, r') \<Rightarrow>
                  Inr (\<lparr>Limits_Tag = tag, Limits_Min = lo, Limits_Max = hi\<rparr>, r')))"
    by (simp add: readLimits_def bnd_def ret_def readByte_def split: sum.splits)
next
  assume "readLimits data = Inl e"
  then consider "e = errUnexpectedEnd" | d where "readVarU32 d = Inl e"
    by (auto simp: readLimits_def bnd_def ret_def readByte_def split: sum.splits if_splits)
  then show "e = errUnexpectedEnd \<or> e = errIntTooLong \<or> e = errIntTooLarge"
    using readVarU32_error by cases blast+
qed

theorem readLimits_flag_witness:
  "readLimits [0xFF, 0x05, 0x07] =
     Inr (\<lparr>Limits_Tag = 0xFF, Limits_Min = 5, Limits_Max = 0\<rparr>, [0x07]) \<and>
   readLimits [0x02, 0x05] = Inr (\<lparr>Limits_Tag = 2, Limits_Min = 5, Limits_Max = 0\<rparr>, []) \<and>
   readLimits [0x01, 0x05, 0x07] =
     Inr (\<lparr>Limits_Tag = 1, Limits_Min = 5, Limits_Max = 7\<rparr>, []) \<and>
   readLimits [0x01, 0x05] = Inl errUnexpectedEnd"
  using readLimits_flag [of "0xFF" "[0x05, 0x07]" "[0x01, 0x05]" errUnexpectedEnd]
    readLimits_flag [of "0x02" "[0x05]" "[0x01, 0x05]" errUnexpectedEnd]
    readLimits_flag [of "0x01" "[0x05, 0x07]" "[0x01, 0x05]" errUnexpectedEnd]
    readLimits_flag [of "0x01" "[0x05]" "[0x01, 0x05]" errUnexpectedEnd]
  by (simp add: readVarU32_def decodeVarUint_def)



end
